theory Spec2Isabelle
  imports Main
begin

section \<open>JavaScript values used by the contract\<close>

subsection \<open>Numbers\<close>

text \<open>
  The contract computes with JavaScript Numbers (IEEE-754 doubles) that come out of
  \<^verbatim>\<open>parseInt\<close> and are combined with \<^verbatim>\<open>+\<close> and \<^verbatim>\<open>-\<close> only. Such values
  are \<^verbatim>\<open>NaN\<close>, the two infinities, or integers that a double represents exactly;
  the sum of two of them is the exact integer sum rounded to the nearest double (ties to
  the even significand). Negative zero is identified with zero: the contract only
  compares, adds, subtracts and prints numbers, and none of these tells the two apart.
\<close>

datatype number = NaN | PosInf | NegInf | Fin int

fun bit_length :: "nat \<Rightarrow> nat" where
  "bit_length n = (if n = 0 then 0 else Suc (bit_length (n div 2)))"

declare bit_length.simps [simp del]

text \<open>The nearest natural number with a 53-bit significand, ties to even.\<close>

definition roundNat :: "nat \<Rightarrow> nat" where
  "roundNat m =
     (if m < 2 ^ 53 then m
      else let k = bit_length m - 53;
               q = m div 2 ^ k;
               r = m mod 2 ^ k;
               h = 2 ^ (k - 1)
           in (if h < r \<or> (r = h \<and> odd q) then q + 1 else q) * 2 ^ k)"

text \<open>The Number value of a mathematical integer; beyond the largest double it is infinite.\<close>

definition toNumber :: "int \<Rightarrow> number" where
  "toNumber n =
     (let v = roundNat (nat \<bar>n\<bar>)
      in if 2 ^ 1024 \<le> v then (if n < 0 then NegInf else PosInf)
         else Fin (if n < 0 then - int v else int v))"

definition representable :: "int \<Rightarrow> bool" where
  "representable n = (toNumber n = Fin n)"

fun num_neg :: "number \<Rightarrow> number" where
  "num_neg NaN = NaN"
| "num_neg PosInf = NegInf"
| "num_neg NegInf = PosInf"
| "num_neg (Fin a) = Fin (- a)"

text \<open>\<^verbatim>\<open>a + b\<close>\<close>

fun num_add :: "number \<Rightarrow> number \<Rightarrow> number" where
  "num_add (Fin a) (Fin b) = toNumber (a + b)"
| "num_add NaN y = NaN"
| "num_add x NaN = NaN"
| "num_add PosInf NegInf = NaN"
| "num_add NegInf PosInf = NaN"
| "num_add PosInf y = PosInf"
| "num_add NegInf y = NegInf"
| "num_add x PosInf = PosInf"
| "num_add x NegInf = NegInf"

text \<open>\<^verbatim>\<open>a - b\<close>\<close>

definition num_sub :: "number \<Rightarrow> number \<Rightarrow> number" where
  "num_sub a b = num_add a (num_neg b)"

text \<open>\<^verbatim>\<open>a !== b\<close>: \<^verbatim>\<open>NaN\<close> differs from every number, itself included.\<close>

definition strict_ne :: "number \<Rightarrow> number \<Rightarrow> bool" where
  "strict_ne a b = (a = NaN \<or> b = NaN \<or> a \<noteq> b)"

text \<open>\<^verbatim>\<open>a < b\<close>: false as soon as one side is \<^verbatim>\<open>NaN\<close>.\<close>

fun num_lt :: "number \<Rightarrow> number \<Rightarrow> bool" where
  "num_lt (Fin a) (Fin b) = (a < b)"
| "num_lt NaN y = False"
| "num_lt x NaN = False"
| "num_lt x NegInf = False"
| "num_lt PosInf y = False"
| "num_lt NegInf y = True"
| "num_lt x PosInf = True"

text \<open>\<^verbatim>\<open>a <= b\<close>\<close>

definition num_le :: "number \<Rightarrow> number \<Rightarrow> bool" where
  "num_le a b = (num_lt a b \<or> (a \<noteq> NaN \<and> a = b))"

subsection \<open>Strings: \<^verbatim>\<open>parseInt\<close> and \<^verbatim>\<open>Number.prototype.toString\<close>\<close>

text \<open>
  A string is the list of its code units, and the code units are those below 256: a
  \<open>char\<close> stands for the character with that code point. \<^verbatim>\<open>parseInt(s)\<close> skips
  leading white space, reads an optional sign and an optional \<^verbatim>\<open>0x\<close> prefix, and
  converts the longest prefix of digits of the radix; with no digit the result is
  \<^verbatim>\<open>NaN\<close>. Of JavaScript's white space and line terminator characters, those
  below 256 are TAB, LF, VT, FF, CR, SP and the no-break space U+00A0.
\<close>

definition isWhiteSpace :: "char \<Rightarrow> bool" where
  "isWhiteSpace c = ((of_char c :: nat) \<in> {9, 10, 11, 12, 13, 32, 160})"

definition digitValue :: "nat \<Rightarrow> char \<Rightarrow> nat option" where
  "digitValue R c =
     (let n = (of_char c :: nat);
          d = (if 48 \<le> n \<and> n \<le> 57 then Some (n - 48)
               else if 97 \<le> n \<and> n \<le> 122 then Some (n - 87)
               else if 65 \<le> n \<and> n \<le> 90 then Some (n - 55)
               else None)
      in case d of None \<Rightarrow> None | Some v \<Rightarrow> if v < R then Some v else None)"

text \<open>
  The digits of the longest prefix in radix \<open>R\<close>, folded into the accumulator; the flag
  says whether a digit was read.
\<close>

fun readDigits :: "nat \<Rightarrow> string \<Rightarrow> bool \<times> nat \<Rightarrow> bool \<times> nat" where
  "readDigits R [] acc = acc"
| "readDigits R (c # cs) acc =
     (case digitValue R c of
        None \<Rightarrow> acc
      | Some v \<Rightarrow> readDigits R cs (True, snd acc * R + v))"

definition parseDigits :: "bool \<Rightarrow> nat \<Rightarrow> string \<Rightarrow> number" where
  "parseDigits negative R s =
     (case readDigits R s (False, 0) of
        (False, _) \<Rightarrow> NaN
      | (True, n) \<Rightarrow> toNumber (if negative then - int n else int n))"

definition parseRadix :: "bool \<Rightarrow> string \<Rightarrow> number" where
  "parseRadix negative s =
     (case s of
        a # b # rest \<Rightarrow>
          if a = CHR ''0'' \<and> (b = CHR ''x'' \<or> b = CHR ''X'')
          then parseDigits negative 16 rest
          else parseDigits negative 10 s
      | _ \<Rightarrow> parseDigits negative 10 s)"

definition parseInt :: "string \<Rightarrow> number" where
  "parseInt s =
     (case dropWhile isWhiteSpace s of
        [] \<Rightarrow> NaN
      | c # cs \<Rightarrow>
          if c = CHR ''-'' then parseRadix True cs
          else if c = CHR ''+'' then parseRadix False cs
          else parseRadix False (c # cs))"

text \<open>Decimal digits of a natural number, most significant first.\<close>

definition digitChar :: "nat \<Rightarrow> char" where
  "digitChar d = ''0123456789'' ! d"

fun digits :: "nat \<Rightarrow> string" where
  "digits n = (if n < 10 then [digitChar n] else digits (n div 10) @ [digitChar (n mod 10)])"

declare digits.simps [simp del]

text \<open>
  A Number prints with the fewest significant digits that still read back as the same
  double: the digits of \<open>s\<close> and an exponent \<open>e\<close> such that \<open>s \<times> 10\<^sup>e\<close> rounds to
  the number. \<open>shortestAt x e\<close> looks for such a decimal with exponent \<open>e\<close> next to
  \<open>x\<close> (the closer one when both neighbours qualify, the even one on a tie);
  \<open>shortest\<close> tries the exponents from the largest down, so the first hit has the
  fewest digits.
\<close>

definition shortestAt :: "nat \<Rightarrow> nat \<Rightarrow> nat option" where
  "shortestAt x e =
     (let s = x div 10 ^ e;
          lo = (roundNat (s * 10 ^ e) = x);
          hi = (roundNat ((s + 1) * 10 ^ e) = x);
          dlo = x - s * 10 ^ e;
          dhi = (s + 1) * 10 ^ e - x
      in if lo \<and> hi then
           (if dlo < dhi \<or> (dlo = dhi \<and> even s) then Some s else Some (s + 1))
         else if lo then Some s
         else if hi then Some (s + 1)
         else None)"

fun shortest :: "nat \<Rightarrow> nat \<Rightarrow> nat \<times> nat" where
  "shortest x e =
     (if e = 0 then (x, 0)
      else case shortestAt x e of
             Some s \<Rightarrow> (s, e)
           | None \<Rightarrow> shortest x (e - 1))"

declare shortest.simps [simp del]

fun stripZeros :: "nat \<Rightarrow> nat \<times> nat \<Rightarrow> nat \<times> nat" where
  "stripZeros fuel (s, e) =
     (if fuel \<noteq> 0 \<and> s \<noteq> 0 \<and> s mod 10 = 0
      then stripZeros (fuel - 1) (s div 10, e + 1)
      else (s, e))"

declare stripZeros.simps [simp del]

text \<open>
  With \<open>n\<close> the number of digits of the decimal that is printed: up to \<open>n = 21\<close> the
  digits of \<open>s\<close> are followed by \<open>e\<close> zeros (\<open>2\<^sup>5\<^sup>7\<close> prints as
  \<^verbatim>\<open>144115188075855870\<close>); beyond, the exponent notation is used
  (\<open>10\<^sup>2\<^sup>1\<close> prints as \<^verbatim>\<open>1e+21\<close>).
\<close>

definition natToString :: "nat \<Rightarrow> string" where
  "natToString x =
     (let (s, e) = stripZeros (length (digits x)) (shortest x (length (digits x) - 1));
          ds = digits s;
          n = length ds + e
      in if n \<le> 21 then ds @ replicate e (CHR ''0'')
         else take 1 ds @ (if length ds = 1 then [] else ''.'' @ drop 1 ds)
              @ ''e+'' @ digits (n - 1))"

fun toString :: "number \<Rightarrow> string" where
  "toString NaN = ''NaN''"
| "toString PosInf = ''Infinity''"
| "toString NegInf = ''-Infinity''"
| "toString (Fin n) = (if n < 0 then ''-'' @ natToString (nat (- n)) else natToString (nat n))"


section \<open>The ledger and the transaction context\<close>

text \<open>
  Errors are the values thrown by the contract, named as in the error taxonomy of the
  specification; \<open>TypeError\<close> is the error JavaScript raises when a method is called
  on \<^verbatim>\<open>undefined\<close>, \<open>InvalidKey\<close> the error of the host when it refuses to build a
  composite key.
\<close>

datatype error =
    NotInitialized
  | AlreadyInitialized
  | Unauthorized
  | InvalidAmount
  | AccountNotFound
  | SourceAccountNotFound
  | DestinationNotSignedUp
  | InsufficientFunds
  | ArithmeticOverflow
  | ArithmeticUnderflow
  | SupplyNotFound
  | NoHistory
  | SelfTransferRejected
  | TypeError
  | InvalidKey

text \<open>
  The contract's \<^verbatim>\<open>async\<close> helpers return promises. \<^verbatim>\<open>await\<close> yields
  the value or rethrows; a promise that is not awaited is an object whose
  \<^verbatim>\<open>toString()\<close> is the text \<^verbatim>\<open>[object Promise]\<close>, whatever it settles to.
\<close>

datatype 'a promise = Promise "error + 'a"

fun await :: "'a promise \<Rightarrow> error + 'a" where
  "await (Promise r) = r"

definition promiseToString :: "'a promise \<Rightarrow> string" where
  "promiseToString p = ''[object Promise]''"

text \<open>
  Keys of the world state: the plain keys of the token options and the composite keys
  that the host builds from an object type and a list of attributes; the contract's
  composite keys have one attribute, an address, and such keys are distinct for
  distinct object types or addresses and distinct from the plain keys.
\<close>

datatype key = Simple string | Composite string "string list"

definition balancePrefix :: string where
  "balancePrefix = ''balance''"

definition transactionDataPrefix :: string where
  "transactionDataPrefix = ''transactionData''"

definition nameKey :: key where
  "nameKey = Simple ''name''"

definition symbolKey :: key where
  "symbolKey = Simple ''symbol''"

definition decimalsKey :: key where
  "decimalsKey = Simple ''decimals''"

definition totalSupplyKey :: key where
  "totalSupplyKey = Simple ''totalSupply''"

record txrecord =
  tx_from :: string
  tx_to :: string
  tx_value :: string
  tx_time :: string

record event =
  ev_name :: string
  ev_from :: string
  ev_to :: string
  ev_value :: number

text \<open>
  The ledger: \<open>state\<close> holds the byte strings written with \<^verbatim>\<open>putState\<close> (token
  options, total supply, balances); \<open>txdata\<close> holds the values under the
  \<^verbatim>\<open>transactionData\<close> keys, which the contract only writes as
  \<^verbatim>\<open>JSON.stringify\<close> of an array of records and reads back with
  \<^verbatim>\<open>JSON.parse\<close>, so they are kept as the arrays themselves; \<open>events\<close> is the
  list of events set with \<^verbatim>\<open>setEvent\<close>.
\<close>

record world =
  state :: "key \<Rightarrow> string option"
  txdata :: "key \<Rightarrow> txrecord list option"
  events :: "event list"

text \<open>
  What \<^verbatim>\<open>getState\<close> answers for a key that was never written is the host's
  choice. The contract's own guards, \<^verbatim>\<open>!bytes || bytes.length === 0\<close>, allow for
  both \<^verbatim>\<open>undefined\<close> and an empty buffer, so the answer is a parameter of the
  context.
\<close>

datatype missing = Undefined | EmptyBuffer

text \<open>
  \<^verbatim>\<open>createCompositeKey\<close> of the host throws on an object type or an attribute
  that is the empty string; what else it refuses in an attribute (its check of the
  encoding) is not the contract's, and is the parameter \<open>acceptsAttribute\<close> of the
  context.
\<close>

record ctx =
  clientID :: string
  clientMSPID :: string
  txTimestamp :: string
  onMissing :: missing
  acceptsAttribute :: "string \<Rightarrow> bool"

definition createCompositeKey :: "ctx \<Rightarrow> string \<Rightarrow> string list \<Rightarrow> error + key" where
  "createCompositeKey c objectType attributes =
     (if objectType = [] \<or> list_ex (\<lambda>a. a = [] \<or> \<not> acceptsAttribute c a) attributes
      then Inl InvalidKey
      else Inr (Composite objectType attributes))"

definition getState :: "ctx \<Rightarrow> world \<Rightarrow> key \<Rightarrow> string option" where
  "getState c w k =
     (case state w k of
        Some v \<Rightarrow> Some v
      | None \<Rightarrow> (case onMissing c of Undefined \<Rightarrow> None | EmptyBuffer \<Rightarrow> Some []))"

definition putState :: "key \<Rightarrow> string \<Rightarrow> world \<Rightarrow> world" where
  "putState k v w = w\<lparr>state := (state w)(k \<mapsto> v)\<rparr>"

definition getTxData :: "world \<Rightarrow> key \<Rightarrow> txrecord list option" where
  "getTxData w k = txdata w k"

definition putTxData :: "key \<Rightarrow> txrecord list \<Rightarrow> world \<Rightarrow> world" where
  "putTxData k v w = w\<lparr>txdata := (txdata w)(k \<mapsto> v)\<rparr>"

definition setEvent :: "event \<Rightarrow> world \<Rightarrow> world" where
  "setEvent e w = w\<lparr>events := events w @ [e]\<rparr>"

text \<open>\<^verbatim>\<open>!bytes || bytes.length === 0\<close>\<close>

definition absent :: "string option \<Rightarrow> bool" where
  "absent b = (b = None \<or> b = Some [])"

text \<open>\<^verbatim>\<open>bytes.toString()\<close> and \<^verbatim>\<open>parseInt(bytes.toString())\<close>\<close>

definition bufferToString :: "string option \<Rightarrow> error + string" where
  "bufferToString b = (case b of None \<Rightarrow> Inl TypeError | Some s \<Rightarrow> Inr s)"

definition parseBuffer :: "string option \<Rightarrow> error + number" where
  "parseBuffer b = (case b of None \<Rightarrow> Inl TypeError | Some s \<Rightarrow> Inr (parseInt s))"

text \<open>
  An operation maps the ledger to its result and the ledger with the writes made so
  far; a thrown error ends it. \<open>orThrow\<close> continues with the value of a step that
  does not write, \<open>andThen\<close> with the value and the ledger of a step that does.
\<close>

definition orThrow ::
  "error + 'a \<Rightarrow> world \<Rightarrow> ('a \<Rightarrow> (error + 'b) \<times> world) \<Rightarrow> (error + 'b) \<times> world" where
  "orThrow r w f = (case r of Inl e \<Rightarrow> (Inl e, w) | Inr v \<Rightarrow> f v)"

definition andThen ::
  "(error + 'a) \<times> world \<Rightarrow> ('a \<Rightarrow> world \<Rightarrow> (error + 'b) \<times> world) \<Rightarrow> (error + 'b) \<times> world" where
  "andThen r f = (case r of (Inl e, w) \<Rightarrow> (Inl e, w) | (Inr v, w) \<Rightarrow> f v w)"

text \<open>
  The host keeps the writes and the event of an invocation that returns and discards
  those of one that throws.
\<close>

definition commit :: "world \<Rightarrow> (error + 'a) \<times> world \<Rightarrow> world" where
  "commit w r = (case fst r of Inl e \<Rightarrow> w | Inr v \<Rightarrow> snd r)"

section \<open>The contract\<close>

subsection \<open>Arithmetic guard\<close>

definition add :: "number \<Rightarrow> number \<Rightarrow> number promise" where
  "add a b =
     (let c = num_add a b
      in if strict_ne a (num_sub c b) \<or> strict_ne b (num_sub c a)
         then Promise (Inl ArithmeticOverflow)
         else Promise (Inr c))"

definition sub :: "number \<Rightarrow> number \<Rightarrow> number promise" where
  "sub a b =
     (let c = num_sub a b
      in if strict_ne a (num_add c b) \<or> strict_ne b (num_sub a c)
         then Promise (Inl ArithmeticUnderflow)
         else Promise (Inr c))"

subsection \<open>Initialization\<close>

definition CheckInitialized :: "ctx \<Rightarrow> world \<Rightarrow> error + unit" where
  "CheckInitialized c w =
     (let nameBytes = getState c w nameKey
      in if absent nameBytes then Inl NotInitialized else Inr ())"

definition Initialize ::
  "ctx \<Rightarrow> string \<Rightarrow> string \<Rightarrow> string \<Rightarrow> world \<Rightarrow> (error + bool) \<times> world" where
  "Initialize c name symbol decimals w =
     (if clientMSPID c \<noteq> ''Org1MSP'' then (Inl Unauthorized, w)
      else let nameBytes = getState c w nameKey
           in if \<not> absent nameBytes then (Inl AlreadyInitialized, w)
              else let w1 = putState nameKey name w;
                       w2 = putState symbolKey symbol w1;
                       w3 = putState decimalsKey decimals w2
                   in (Inr True, w3))"

subsection \<open>Accounts and accessors\<close>

definition signup :: "ctx \<Rightarrow> string \<Rightarrow> world \<Rightarrow> (error + bool) \<times> world" where
  "signup c userAddress w =
     orThrow (CheckInitialized c w) w (\<lambda>_.
     orThrow (createCompositeKey c balancePrefix [userAddress]) w (\<lambda>userBalanceKey.
       let userCurrentBalanceBytes = getState c w userBalanceKey
       in orThrow (if absent userCurrentBalanceBytes then Inr (Fin 0)
                   else parseBuffer userCurrentBalanceBytes) w (\<lambda>userCurrentBalance.
            (Inr True, putState userBalanceKey (toString userCurrentBalance) w))))"

definition TokenName :: "ctx \<Rightarrow> world \<Rightarrow> (error + string) \<times> world" where
  "TokenName c w =
     orThrow (CheckInitialized c w) w (\<lambda>_.
       let nameBytes = getState c w nameKey
       in orThrow (bufferToString nameBytes) w (\<lambda>s. (Inr s, w)))"

definition Symbol :: "ctx \<Rightarrow> world \<Rightarrow> (error + string) \<times> world" where
  "Symbol c w =
     orThrow (CheckInitialized c w) w (\<lambda>_.
       let symbolBytes = getState c w symbolKey
       in orThrow (bufferToString symbolBytes) w (\<lambda>s. (Inr s, w)))"

definition Decimals :: "ctx \<Rightarrow> world \<Rightarrow> (error + number) \<times> world" where
  "Decimals c w =
     orThrow (CheckInitialized c w) w (\<lambda>_.
       let decimalsBytes = getState c w decimalsKey
       in orThrow (parseBuffer decimalsBytes) w (\<lambda>decimals. (Inr decimals, w)))"

definition TotalSupply :: "ctx \<Rightarrow> world \<Rightarrow> (error + number) \<times> world" where
  "TotalSupply c w =
     orThrow (CheckInitialized c w) w (\<lambda>_.
       let totalSupplyBytes = getState c w totalSupplyKey
       in orThrow (parseBuffer totalSupplyBytes) w (\<lambda>totalSupply. (Inr totalSupply, w)))"

definition BalanceOf :: "ctx \<Rightarrow> string \<Rightarrow> world \<Rightarrow> (error + number) \<times> world" where
  "BalanceOf c owner w =
     orThrow (CheckInitialized c w) w (\<lambda>_.
     orThrow (createCompositeKey c balancePrefix [owner]) w (\<lambda>balanceKey.
       let balanceBytes = getState c w balanceKey
       in if absent balanceBytes then (Inl AccountNotFound, w)
          else orThrow (parseBuffer balanceBytes) w (\<lambda>balance. (Inr balance, w))))"

definition ClientAccountBalance :: "ctx \<Rightarrow> world \<Rightarrow> (error + number) \<times> world" where
  "ClientAccountBalance c w =
     orThrow (CheckInitialized c w) w (\<lambda>_.
       let clientAccountID = clientID c
       in orThrow (createCompositeKey c balancePrefix [clientAccountID]) w (\<lambda>balanceKey.
       let balanceBytes = getState c w balanceKey
       in if absent balanceBytes then (Inl AccountNotFound, w)
          else orThrow (parseBuffer balanceBytes) w (\<lambda>balance. (Inr balance, w))))"

definition ClientAccountID :: "ctx \<Rightarrow> world \<Rightarrow> (error + string) \<times> world" where
  "ClientAccountID c w =
     orThrow (CheckInitialized c w) w (\<lambda>_. (Inr (clientID c), w))"

subsection \<open>Transaction history\<close>

text \<open>
  Each writer reads the array under the account's \<^verbatim>\<open>transactionData\<close> key,
  starts a one-element array when there is none and pushes onto it otherwise, and
  writes the array back.
\<close>

definition setFromTransactionData ::
  "ctx \<Rightarrow> string \<Rightarrow> string \<Rightarrow> string \<Rightarrow> world \<Rightarrow> (error + bool) \<times> world" where
  "setFromTransactionData c from to val w =
     orThrow (CheckInitialized c w) w (\<lambda>_.
     orThrow (createCompositeKey c transactionDataPrefix [from]) w (\<lambda>transactionDataKey.
       let newTransactionData =
             \<lparr>tx_from = from, tx_to = to, tx_value = val, tx_time = txTimestamp c\<rparr>
       in case getTxData w transactionDataKey of
            None \<Rightarrow> (Inr True, putTxData transactionDataKey [newTransactionData] w)
          | Some transactionData \<Rightarrow>
              (Inr True, putTxData transactionDataKey (transactionData @ [newTransactionData]) w)))"

definition setToTransactionData ::
  "ctx \<Rightarrow> string \<Rightarrow> string \<Rightarrow> string \<Rightarrow> world \<Rightarrow> (error + bool) \<times> world" where
  "setToTransactionData c from to val w =
     orThrow (CheckInitialized c w) w (\<lambda>_.
     orThrow (createCompositeKey c transactionDataPrefix [to]) w (\<lambda>transactionDataKey.
       let newTransactionData =
             \<lparr>tx_from = from, tx_to = to, tx_value = val, tx_time = txTimestamp c\<rparr>
       in case getTxData w transactionDataKey of
            None \<Rightarrow> (Inr True, putTxData transactionDataKey [newTransactionData] w)
          | Some transactionData \<Rightarrow>
              (Inr True, putTxData transactionDataKey (transactionData @ [newTransactionData]) w)))"

text \<open>The method is declared with the parameters \<^verbatim>\<open>(ctx, to, value)\<close>.\<close>

definition setAdminTransactionData ::
  "ctx \<Rightarrow> string \<Rightarrow> string \<Rightarrow> world \<Rightarrow> (error + bool) \<times> world" where
  "setAdminTransactionData c to val w =
     orThrow (CheckInitialized c w) w (\<lambda>_.
     orThrow (createCompositeKey c transactionDataPrefix [to]) w (\<lambda>transactionDataKey.
       let newTransactionData =
             \<lparr>tx_from = ''admin'', tx_to = to, tx_value = val, tx_time = txTimestamp c\<rparr>
       in case getTxData w transactionDataKey of
            None \<Rightarrow> (Inr True, putTxData transactionDataKey [newTransactionData] w)
          | Some transactionData \<Rightarrow>
              (Inr True, putTxData transactionDataKey (transactionData @ [newTransactionData]) w)))"

definition getTransactionData ::
  "ctx \<Rightarrow> string \<Rightarrow> world \<Rightarrow> (error + txrecord list) \<times> world" where
  "getTransactionData c userAddress w =
     orThrow (CheckInitialized c w) w (\<lambda>_.
     orThrow (createCompositeKey c transactionDataPrefix [userAddress]) w (\<lambda>transactionDataKey.
       case getTxData w transactionDataKey of
         None \<Rightarrow> (Inl NoHistory, w)
       | Some transactionData \<Rightarrow> (Inr transactionData, w)))"

subsection \<open>Transfers\<close>

text \<open>
  \<^verbatim>\<open>Transfer\<close> ends with the call
  \<^verbatim>\<open>this.setAdminTransactionData(ctx, clientAccountID, to, value)\<close>: four arguments
  for the three parameters \<^verbatim>\<open>(ctx, to, value)\<close>. JavaScript binds them in order
  and drops the fourth, so the callee's \<^verbatim>\<open>to\<close> is the caller's identity and its
  \<^verbatim>\<open>value\<close> is the destination address.
\<close>

definition Transfer :: "ctx \<Rightarrow> string \<Rightarrow> string \<Rightarrow> world \<Rightarrow> (error + bool) \<times> world" where
  "Transfer c to val w =
     orThrow (CheckInitialized c w) w (\<lambda>_.
       let clientAccountID = clientID c;
           valueInt = parseInt val
       in if num_lt valueInt (Fin 0) then (Inl InvalidAmount, w)
          else
       orThrow (createCompositeKey c balancePrefix [clientAccountID]) w (\<lambda>fromBalanceKey.
       let fromCurrentBalanceBytes = getState c w fromBalanceKey
       in if absent fromCurrentBalanceBytes then (Inl SourceAccountNotFound, w)
          else orThrow (parseBuffer fromCurrentBalanceBytes) w (\<lambda>fromCurrentBalance.
       if num_lt fromCurrentBalance valueInt then (Inl InsufficientFunds, w)
       else
       orThrow (createCompositeKey c balancePrefix [to]) w (\<lambda>toBalanceKey.
       let toCurrentBalanceBytes = getState c w toBalanceKey
       in if absent toCurrentBalanceBytes then (Inl DestinationNotSignedUp, w)
          else orThrow (parseBuffer toCurrentBalanceBytes) w (\<lambda>toCurrentBalance.
       orThrow (await (sub fromCurrentBalance valueInt)) w (\<lambda>fromUpdatedBalance.
       orThrow (await (add toCurrentBalance valueInt)) w (\<lambda>toUpdatedBalance.
       let w1 = putState fromBalanceKey (toString fromUpdatedBalance) w;
           w2 = putState toBalanceKey (toString toUpdatedBalance) w1
       in andThen (setAdminTransactionData c clientAccountID to w2) (\<lambda>_ w3.
            (Inr True, w3)))))))))"

definition TransferFrom ::
  "ctx \<Rightarrow> string \<Rightarrow> string \<Rightarrow> string \<Rightarrow> world \<Rightarrow> (error + bool) \<times> world" where
  "TransferFrom c from to val w =
     (if from = to then (Inl SelfTransferRejected, w)
      else
      let valueInt = parseInt val
      in if num_lt valueInt (Fin 0) then (Inl InvalidAmount, w)
         else
      orThrow (createCompositeKey c balancePrefix [from]) w (\<lambda>fromBalanceKey.
      let fromCurrentBalanceBytes = getState c w fromBalanceKey
      in if absent fromCurrentBalanceBytes then (Inl SourceAccountNotFound, w)
         else orThrow (parseBuffer fromCurrentBalanceBytes) w (\<lambda>fromCurrentBalance.
      if num_lt fromCurrentBalance valueInt then (Inl InsufficientFunds, w)
      else
      orThrow (createCompositeKey c balancePrefix [to]) w (\<lambda>toBalanceKey.
      let toCurrentBalanceBytes = getState c w toBalanceKey
      in if absent toCurrentBalanceBytes then (Inl DestinationNotSignedUp, w)
         else orThrow (parseBuffer toCurrentBalanceBytes) w (\<lambda>toCurrentBalance.
      orThrow (await (sub fromCurrentBalance valueInt)) w (\<lambda>fromUpdatedBalance.
      orThrow (await (add toCurrentBalance valueInt)) w (\<lambda>toUpdatedBalance.
      let w1 = putState fromBalanceKey (toString fromUpdatedBalance) w;
          w2 = putState toBalanceKey (toString toUpdatedBalance) w1
      in andThen (setFromTransactionData c from to val w2) (\<lambda>_ w3.
         andThen (setToTransactionData c from to val w3) (\<lambda>_ w4.
           (Inr True, w4))))))))))"

subsection \<open>Supply\<close>

text \<open>
  \<^verbatim>\<open>Mint\<close> and \<^verbatim>\<open>Burn\<close> call \<^verbatim>\<open>this.add\<close> and \<^verbatim>\<open>this.sub\<close>
  without \<^verbatim>\<open>await\<close>: \<^verbatim>\<open>updatedBalance\<close> and \<^verbatim>\<open>totalSupply\<close> are the
  promises, their \<^verbatim>\<open>toString()\<close> is what is written, and an error inside them is
  not thrown by the operation.
\<close>

definition Mint :: "ctx \<Rightarrow> string \<Rightarrow> world \<Rightarrow> (error + bool) \<times> world" where
  "Mint c amount w =
     orThrow (CheckInitialized c w) w (\<lambda>_.
       if clientMSPID c \<noteq> ''Org1MSP'' then (Inl Unauthorized, w)
       else
       let minter = clientID c;
           amountInt = parseInt amount
       in if num_le amountInt (Fin 0) then (Inl InvalidAmount, w)
          else
       orThrow (createCompositeKey c balancePrefix [minter]) w (\<lambda>balanceKey.
       let currentBalanceBytes = getState c w balanceKey
       in orThrow (if absent currentBalanceBytes then Inr (Fin 0)
                   else parseBuffer currentBalanceBytes) w (\<lambda>currentBalance.
       let updatedBalance = add currentBalance amountInt;
           w1 = putState balanceKey (promiseToString updatedBalance) w;
           totalSupplyBytes = getState c w1 totalSupplyKey
       in orThrow (if absent totalSupplyBytes then Inr (Fin 0)
                   else parseBuffer totalSupplyBytes) w1 (\<lambda>totalSupply0.
       let totalSupply = add totalSupply0 amountInt;
           w2 = putState totalSupplyKey (promiseToString totalSupply) w1;
           transferEvent =
             \<lparr>ev_name = ''Transfer'', ev_from = ''0x0'', ev_to = minter, ev_value = amountInt\<rparr>
       in (Inr True, setEvent transferEvent w2)))))"

definition Burn :: "ctx \<Rightarrow> string \<Rightarrow> world \<Rightarrow> (error + bool) \<times> world" where
  "Burn c amount w =
     orThrow (CheckInitialized c w) w (\<lambda>_.
       if clientMSPID c \<noteq> ''Org1MSP'' then (Inl Unauthorized, w)
       else
       let minter = clientID c;
           amountInt = parseInt amount
       in orThrow (createCompositeKey c balancePrefix [minter]) w (\<lambda>balanceKey.
       let currentBalanceBytes = getState c w balanceKey
       in if absent currentBalanceBytes then (Inl AccountNotFound, w)
          else orThrow (parseBuffer currentBalanceBytes) w (\<lambda>currentBalance.
       let updatedBalance = sub currentBalance amountInt;
           w1 = putState balanceKey (promiseToString updatedBalance) w;
           totalSupplyBytes = getState c w1 totalSupplyKey
       in if absent totalSupplyBytes then (Inl SupplyNotFound, w1)
          else orThrow (parseBuffer totalSupplyBytes) w1 (\<lambda>totalSupply0.
       let totalSupply = sub totalSupply0 amountInt;
           w2 = putState totalSupplyKey (promiseToString totalSupply) w1;
           transferEvent =
             \<lparr>ev_name = ''Transfer'', ev_from = minter, ev_to = ''0x0'', ev_value = amountInt\<rparr>
       in (Inr True, setEvent transferEvent w2)))))"

subsection \<open>The public operations\<close>

datatype call =
    CallInitialize string string string
  | CallMint string
  | CallBurn string
  | CallTransfer string string
  | CallTransferFrom string string string
  | CallSignup string
  | CallBalanceOf string
  | CallClientAccountBalance
  | CallClientAccountID
  | CallTokenName
  | CallSymbol
  | CallDecimals
  | CallTotalSupply
  | CallGetTransactionData string

datatype retval = RBool bool | RNum number | RStr string | RHistory "txrecord list"

definition returning ::
  "('a \<Rightarrow> retval) \<Rightarrow> (error + 'a) \<times> world \<Rightarrow> (error + retval) \<times> world" where
  "returning f r = (case r of (Inl e, w) \<Rightarrow> (Inl e, w) | (Inr v, w) \<Rightarrow> (Inr (f v), w))"

fun invoke :: "ctx \<Rightarrow> call \<Rightarrow> world \<Rightarrow> (error + retval) \<times> world" where
  "invoke c (CallInitialize name symbol decimals) w = returning RBool (Initialize c name symbol decimals w)"
| "invoke c (CallMint amount) w = returning RBool (Mint c amount w)"
| "invoke c (CallBurn amount) w = returning RBool (Burn c amount w)"
| "invoke c (CallTransfer to val) w = returning RBool (Transfer c to val w)"
| "invoke c (CallTransferFrom from to val) w = returning RBool (TransferFrom c from to val w)"
| "invoke c (CallSignup userAddress) w = returning RBool (signup c userAddress w)"
| "invoke c (CallBalanceOf owner) w = returning RNum (BalanceOf c owner w)"
| "invoke c CallClientAccountBalance w = returning RNum (ClientAccountBalance c w)"
| "invoke c CallClientAccountID w = returning RStr (ClientAccountID c w)"
| "invoke c CallTokenName w = returning RStr (TokenName c w)"
| "invoke c CallSymbol w = returning RStr (Symbol c w)"
| "invoke c CallDecimals w = returning RNum (Decimals c w)"
| "invoke c CallTotalSupply w = returning RNum (TotalSupply c w)"
| "invoke c (CallGetTransactionData userAddress) w = returning RHistory (getTransactionData c userAddress w)"

text \<open>A transaction: the invocation, committed when it returns.\<close>

definition submit :: "ctx \<Rightarrow> call \<Rightarrow> world \<Rightarrow> world" where
  "submit c op w = commit w (invoke c op w)"

fun submitAll :: "(ctx \<times> call) list \<Rightarrow> world \<Rightarrow> world" where
  "submitAll [] w = w"
| "submitAll ((c, op) # rest) w = submitAll rest (submit c op w)"

definition emptyWorld :: world where
  "emptyWorld = \<lparr>state = Map.empty, txdata = Map.empty, events = []\<rparr>"


section \<open>Notions used in the statements\<close>

definition isDecimal :: "char \<Rightarrow> bool" where
  "isDecimal c = (48 \<le> (of_char c :: nat) \<and> (of_char c :: nat) \<le> 57)"

text \<open>
  The keys of an account's balance and of its history, and the addresses for which the
  host builds them.
\<close>

definition keyable :: "ctx \<Rightarrow> string \<Rightarrow> bool" where
  "keyable c a = (a \<noteq> [] \<and> acceptsAttribute c a)"

definition balanceKeyOf :: "string \<Rightarrow> key" where
  "balanceKeyOf a = Composite balancePrefix [a]"

definition historyKeyOf :: "string \<Rightarrow> key" where
  "historyKeyOf a = Composite transactionDataPrefix [a]"

text \<open>The history sequence of a key, empty when nothing is stored under it.\<close>

definition historyAt :: "world \<Rightarrow> key \<Rightarrow> txrecord list" where
  "historyAt w k = (case txdata w k of None \<Rightarrow> [] | Some xs \<Rightarrow> xs)"

text \<open>The balance of an account as the contract reads it: \<^verbatim>\<open>parseInt\<close> of the stored text.\<close>

definition balanceNumber :: "world \<Rightarrow> string \<Rightarrow> number option" where
  "balanceNumber w a = map_option parseInt (state w (balanceKeyOf a))"

definition supplyNumber :: "world \<Rightarrow> number option" where
  "supplyNumber w = map_option parseInt (state w totalSupplyKey)"

text \<open>
  Conservation over the accounts that hold a balance record: the stored total supply
  is a number equal (\<^verbatim>\<open>===\<close>) to the sum of their balances.
\<close>

definition conservation :: "string list \<Rightarrow> world \<Rightarrow> bool" where
  "conservation holders w =
     (case supplyNumber w of
        None \<Rightarrow> False
      | Some supply \<Rightarrow>
          \<not> strict_ne supply
              (foldl num_add (Fin 0) (map (\<lambda>a. case balanceNumber w a of None \<Rightarrow> Fin 0 | Some b \<Rightarrow> b) holders)))"

text \<open>Contexts and ledgers for the concrete runs.\<close>

definition admin :: ctx where
  "admin = \<lparr>clientID = ''minter'', clientMSPID = ''Org1MSP'',
            txTimestamp = ''1700000000'', onMissing = EmptyBuffer,
            acceptsAttribute = (\<lambda>a. True)\<rparr>"

definition alice :: ctx where
  "alice = \<lparr>clientID = ''alice'', clientMSPID = ''Org2MSP'',
            txTimestamp = ''1700000001'', onMissing = EmptyBuffer,
            acceptsAttribute = (\<lambda>a. True)\<rparr>"

definition initialized :: world where
  "initialized = submit admin (CallInitialize ''Token'' ''TKN'' ''2'') emptyWorld"

definition signedUp :: world where
  "signedUp = submitAll [(alice, CallSignup ''alice''), (alice, CallSignup ''bob'')] initialized"

text \<open>Account \<open>a\<close> has a balance record that reads as the integer \<open>b\<close>.\<close>

definition reads :: "world \<Rightarrow> string \<Rightarrow> int \<Rightarrow> bool" where
  "reads w a b =
     (case state w (balanceKeyOf a) of
        None \<Rightarrow> False
      | Some s \<Rightarrow> parseInt s = Fin b)"

text \<open>Ledgers with a planted balance for \<open>alice\<close>.\<close>

definition funded :: world where
  "funded = putState (balanceKeyOf ''alice'') ''10'' signedUp"

definition rich :: world where
  "rich = putState (balanceKeyOf ''alice'') ''9007199254740992'' signedUp"

definition huge :: world where
  "huge = putState (balanceKeyOf ''alice'') ''1000000000000000000000'' signedUp"

text \<open>
  The ledger after the administrator mints 100, after a further 50, and after 100 are
  minted and \<open>bob\<close> signs up.
\<close>

definition afterMint100 :: world where
  "afterMint100 = submit admin (CallMint ''100'') initialized"

definition afterMint150 :: world where
  "afterMint150 = submit admin (CallMint ''50'') afterMint100"


section \<open>Numbers and strings: basic facts\<close>

subsection \<open>Rounding to a double\<close>

lemma bit_length_upper: "0 < n \<Longrightarrow> n < 2 ^ bit_length n"
proof (induction n rule: bit_length.induct)
  case (1 n)
  show ?case
  proof (cases "n div 2 = 0")
    case True
    with "1.prems" have "n = 1" by presburger
    then show ?thesis by (simp add: bit_length.simps)
  next
    case False
    with 1 have "n div 2 < 2 ^ bit_length (n div 2)" by simp
    then have "n < 2 * 2 ^ bit_length (n div 2)" by linarith
    moreover have "bit_length n = Suc (bit_length (n div 2))"
      using "1.prems" by (subst bit_length.simps) simp
    ultimately show ?thesis by simp
  qed
qed

lemma bit_length_lower: "0 < n \<Longrightarrow> 2 ^ bit_length n \<le> 2 * n"
proof (induction n rule: bit_length.induct)
  case (1 n)
  show ?case
  proof (cases "n div 2 = 0")
    case True
    with "1.prems" have "n = 1" by presburger
    then show ?thesis by (simp add: bit_length.simps)
  next
    case False
    with 1 have "2 ^ bit_length (n div 2) \<le> 2 * (n div 2)" by simp
    then have "2 * 2 ^ bit_length (n div 2) \<le> 2 * n" by linarith
    moreover have "bit_length n = Suc (bit_length (n div 2))"
      using "1.prems" by (subst bit_length.simps) simp
    ultimately show ?thesis by simp
  qed
qed

lemma bit_length_eq:
  assumes "2 ^ k \<le> n" and "n < 2 ^ Suc k"
  shows "bit_length n = Suc k"
proof -
  have pos: "0 < n" using assms(1) by (metis not_gr_zero not_less power_not_zero zero_neq_numeral le_zero_eq)
  have "(2::nat) ^ k < 2 ^ bit_length n"
    using assms(1) bit_length_upper [OF pos] by linarith
  then have a: "k < bit_length n" by (simp add: power_strict_increasing_iff)
  have "(2::nat) ^ bit_length n < 2 ^ Suc (Suc k)"
    using assms(2) bit_length_lower [OF pos] by simp
  then have b: "bit_length n < Suc (Suc k)" by (simp only: power_strict_increasing_iff one_less_numeral_iff semiring_norm)
  from a b show ?thesis by linarith
qed

lemma bit_length_large:
  assumes "2 ^ 53 \<le> m"
  shows "53 < bit_length m"
proof -
  have pos: "0 < m" using assms by (simp add: less_le_trans [of 0 "2 ^ 53"])
  have "(2::nat) ^ 53 < 2 ^ bit_length m"
    using assms bit_length_upper [OF pos] by linarith
  then show ?thesis by (simp only: power_strict_increasing_iff one_less_numeral_iff semiring_norm)
qed

text \<open>The shape of a rounded number: a significand of 53 bits times a power of two.\<close>

lemma roundNat_form:
  assumes "2 ^ 53 \<le> m"
  defines "k \<equiv> bit_length m - 53"
  shows "\<exists>q. roundNat m = q * 2 ^ k \<and> 2 ^ 52 \<le> q \<and> q \<le> 2 ^ 53 \<and> 0 < k
             \<and> (q = m div 2 ^ k \<or> q = m div 2 ^ k + 1)"
proof -
  have pos: "0 < m" using assms(1) by (simp add: less_le_trans [of 0 "2 ^ 53"])
  have L: "53 < bit_length m" using assms(1) by (rule bit_length_large)
  then have k: "0 < k" and Lk: "bit_length m = 53 + k" by (simp_all add: k_def)
  have up: "m < 2 ^ 53 * 2 ^ k"
    using bit_length_upper [OF pos] by (simp add: Lk power_add)
  have lo: "2 ^ 52 * 2 ^ k \<le> m"
  proof -
    have "(2::nat) ^ (53 + k) = 2 * (2 ^ 52 * 2 ^ k)" by (simp add: power_add)
    with bit_length_lower [OF pos] show ?thesis by (simp add: Lk)
  qed
  define q where "q = m div 2 ^ k"
  have q1: "2 ^ 52 \<le> q"
    unfolding q_def using lo by (simp add: less_eq_div_iff_mult_less_eq)
  have q2: "q < 2 ^ 53"
    unfolding q_def using up by (simp add: less_mult_imp_div_less)
  have nlt: "\<not> m < 2 ^ 53" using assms(1) by simp
  have r: "roundNat m =
      (if 2 ^ (k - 1) < m mod 2 ^ k \<or> (m mod 2 ^ k = 2 ^ (k - 1) \<and> odd q) then q + 1 else q) * 2 ^ k"
    using nlt by (simp add: roundNat_def Let_def k_def q_def)
  show ?thesis
  proof (cases "2 ^ (k - 1) < m mod 2 ^ k \<or> (m mod 2 ^ k = 2 ^ (k - 1) \<and> odd q)")
    case True
    then have "roundNat m = (q + 1) * 2 ^ k" using r by simp
    moreover have "2 ^ 52 \<le> q + 1" "q + 1 \<le> 2 ^ 53" using q1 q2 by simp_all
    ultimately show ?thesis using k q_def by blast
  next
    case False
    then have "roundNat m = q * 2 ^ k" using r by simp
    moreover have "q \<le> 2 ^ 53" using q2 by simp
    ultimately show ?thesis using k q1 q_def by blast
  qed
qed

lemma roundNat_mult:
  assumes "2 ^ 52 \<le> q" and "q < 2 ^ 53"
  shows "roundNat (q * 2 ^ k) = q * 2 ^ k"
proof (cases "k = 0")
  case True
  then show ?thesis using assms(2) by (simp add: roundNat_def)
next
  case False
  then have k: "0 < k" by simp
  define m where "m = q * 2 ^ k"
  have lo: "2 ^ (52 + k) \<le> m"
    unfolding m_def power_add using assms(1) by (simp add: mult_le_mono1)
  have up: "m < 2 ^ Suc (52 + k)"
  proof -
    have "q * 2 ^ k < 2 ^ 53 * 2 ^ k" using assms(2) by simp
    then show ?thesis by (simp add: m_def power_add)
  qed
  have L: "bit_length m = Suc (52 + k)" using lo up by (rule bit_length_eq)
  have kk: "bit_length m - 53 = k" by (simp add: L)
  have ge: "\<not> m < 2 ^ 53"
  proof -
    have "(2::nat) ^ 53 \<le> 2 ^ (52 + k)" using k by (intro power_increasing) simp_all
    with lo show ?thesis by linarith
  qed
  have d: "m div 2 ^ k = q" and r: "m mod 2 ^ k = 0" by (simp_all add: m_def)
  have h: "(0::nat) < 2 ^ (k - 1)" by simp
  have "roundNat m = q * 2 ^ k"
    using ge h by (simp add: roundNat_def Let_def kk d r)
  then show ?thesis by (simp add: m_def)
qed

lemma roundNat_mult_le:
  assumes "2 ^ 52 \<le> q" and "q \<le> 2 ^ 53"
  shows "roundNat (q * 2 ^ k) = q * 2 ^ k"
proof (cases "q = 2 ^ 53")
  case True
  have "roundNat (2 ^ 52 * 2 ^ Suc k) = 2 ^ 52 * 2 ^ Suc k"
    by (rule roundNat_mult) simp_all
  then show ?thesis by (simp add: True)
next
  case False
  with assms(2) have "q < 2 ^ 53" by simp
  with assms(1) show ?thesis by (rule roundNat_mult)
qed

lemma roundNat_idem: "roundNat (roundNat m) = roundNat m"
proof (cases "m < 2 ^ 53")
  case True
  then show ?thesis by (simp add: roundNat_def)
next
  case False
  then have "2 ^ 53 \<le> m" by simp
  from roundNat_form [OF this] obtain q where
    "roundNat m = q * 2 ^ (bit_length m - 53)" "2 ^ 52 \<le> q" "q \<le> 2 ^ 53"
    by blast
  then show ?thesis by (simp add: roundNat_mult_le)
qed

lemma roundNat_large: "2 ^ 53 \<le> m \<Longrightarrow> 2 ^ 53 \<le> roundNat m"
proof -
  assume a: "2 ^ 53 \<le> m"
  from roundNat_form [OF a] obtain q where
    q: "roundNat m = q * 2 ^ (bit_length m - 53)" "2 ^ 52 \<le> q" "0 < bit_length m - 53"
    by blast
  define k where "k = bit_length m - 53"
  have "(2::nat) ^ 1 \<le> 2 ^ k" using q(3) unfolding k_def by (intro power_increasing) simp_all
  then have "2 ^ 52 * 2 \<le> q * 2 ^ k" using q(2) by (intro mult_le_mono) simp_all
  then show ?thesis using q(1) by (simp add: k_def)
qed

lemma roundNat_exact: "roundNat v = x \<Longrightarrow> x < 2 ^ 53 \<Longrightarrow> v = x"
proof -
  assume a: "roundNat v = x" "x < 2 ^ 53"
  have "v < 2 ^ 53"
  proof (rule ccontr)
    assume "\<not> v < 2 ^ 53"
    then have "2 ^ 53 \<le> roundNat v" by (intro roundNat_large) simp
    with a show False by simp
  qed
  with a(1) show ?thesis by (simp add: roundNat_def)
qed

lemma roundNat_fixed_iff:
  "(roundNat m = m) = (m < 2 ^ 53 \<or> 2 ^ (bit_length m - 53) dvd m)"
proof (cases "m < 2 ^ 53")
  case True
  then show ?thesis by (simp add: roundNat_def)
next
  case False
  then have ge: "2 ^ 53 \<le> m" by simp
  show ?thesis
  proof
    assume "roundNat m = m"
    with roundNat_form [OF ge] obtain q where "m = q * 2 ^ (bit_length m - 53)" by metis
    then have "2 ^ (bit_length m - 53) dvd m" by (metis dvd_triv_right)
    then show "m < 2 ^ 53 \<or> 2 ^ (bit_length m - 53) dvd m" by simp
  next
    assume "m < 2 ^ 53 \<or> 2 ^ (bit_length m - 53) dvd m"
    with False have d: "2 ^ (bit_length m - 53) dvd m" by simp
    from roundNat_form [OF ge] have k: "0 < bit_length m - 53" by blast
    have h: "(0::nat) < 2 ^ (bit_length m - 53 - 1)" by simp
    from d have r: "m mod 2 ^ (bit_length m - 53) = 0" by (simp add: mod_eq_0_iff_dvd)
    show "roundNat m = m"
      using False h d by (simp add: roundNat_def Let_def r)
  qed
qed


lemma bit_length_mono: "a \<le> b \<Longrightarrow> bit_length a \<le> bit_length b"
proof (cases "a = 0")
  case True
  then show ?thesis by (simp add: bit_length.simps)
next
  case False
  assume ab: "a \<le> b"
  from False have a: "0 < a" by simp
  with ab have b: "0 < b" by simp
  have "2 ^ bit_length a \<le> 2 * a" using a by (rule bit_length_lower)
  also have "\<dots> \<le> 2 * b" using ab by simp
  also have "\<dots> < 2 * 2 ^ bit_length b" using bit_length_upper [OF b] by simp
  finally have "(2::nat) ^ bit_length a < 2 ^ Suc (bit_length b)" by simp
  then have "bit_length a < Suc (bit_length b)"
    by (simp only: power_strict_increasing_iff one_less_numeral_iff semiring_norm)
  then show ?thesis by simp
qed

lemma roundNat_small: "m \<le> 2 ^ 53 \<Longrightarrow> roundNat m = m"
proof (cases "m < 2 ^ 53")
  case True
  then show ?thesis by (simp add: roundNat_def)
next
  case False
  assume "m \<le> 2 ^ 53"
  with False have m: "m = 2 ^ 52 * 2 ^ 1" by simp
  show ?thesis unfolding m by (rule roundNat_mult) simp_all
qed

text \<open>
  A difference of naturals fixed by the rounding is fixed too when the sum is: all of
  them are multiples of the spacing at the larger operand.
\<close>

lemma roundNat_diff:
  assumes b: "roundNat b = b" and s: "roundNat (b + v) = b + v" and vb: "v \<le> b"
  shows "roundNat (b - v) = b - v"
proof (cases "b - v < 2 ^ 53")
  case True
  then show ?thesis by (simp add: roundNat_def)
next
  case False
  then have d: "2 ^ 53 \<le> b - v" by simp
  then have bl: "\<not> b < 2 ^ 53" and sl: "\<not> b + v < 2 ^ 53" by linarith+
  have db: "2 ^ (bit_length b - 53) dvd b"
    using b bl by (simp add: roundNat_fixed_iff)
  have ds: "2 ^ (bit_length (b + v) - 53) dvd b + v"
    using s sl by (simp add: roundNat_fixed_iff)
  have "bit_length b - 53 \<le> bit_length (b + v) - 53"
    by (intro diff_le_mono bit_length_mono) simp
  then have "(2::nat) ^ (bit_length b - 53) dvd 2 ^ (bit_length (b + v) - 53)"
    by (rule le_imp_power_dvd)
  from this ds have "2 ^ (bit_length b - 53) dvd b + v" by (rule dvd_trans)
  with db have "2 ^ (bit_length b - 53) dvd v" by (simp add: dvd_add_right_iff)
  with db have dd: "2 ^ (bit_length b - 53) dvd b - v" by (rule dvd_diff_nat)
  have "bit_length (b - v) - 53 \<le> bit_length b - 53"
    by (intro diff_le_mono bit_length_mono) simp
  then have "(2::nat) ^ (bit_length (b - v) - 53) dvd 2 ^ (bit_length b - 53)"
    by (rule le_imp_power_dvd)
  from this dd have "2 ^ (bit_length (b - v) - 53) dvd b - v" by (rule dvd_trans)
  then show ?thesis by (simp add: roundNat_fixed_iff)
qed

lemma roundNat_ge_1e21:
  assumes "10 ^ 21 \<le> v"
  shows "10 ^ 21 \<le> roundNat v"
proof -
  define T :: nat where "T = 10 ^ 21"
  have Tv: "T \<le> v" using assms by (simp add: T_def)
  have ge: "2 ^ 53 \<le> v" using assms by simp
  define k where "k = bit_length v - 53"
  from roundNat_form [OF ge] obtain q where
    q: "roundNat v = q * 2 ^ k" "2 ^ 52 \<le> q" "q = v div 2 ^ k \<or> q = v div 2 ^ k + 1"
    unfolding k_def by blast
  have "T \<le> q * 2 ^ k"
  proof (cases "k \<le> 21")
    case True
    then have "(2::nat) ^ k dvd 2 ^ 21" by (rule le_imp_power_dvd)
    moreover have "(2::nat) ^ 21 dvd T" by (simp add: T_def)
    ultimately have dv: "(2::nat) ^ k dvd T" by (rule dvd_trans)
    have "T div 2 ^ k \<le> v div 2 ^ k" using Tv by (rule div_le_mono)
    then have "T div 2 ^ k * 2 ^ k \<le> v div 2 ^ k * 2 ^ k" by (rule mult_le_mono1)
    moreover have "T div 2 ^ k * 2 ^ k = T" using dv by (rule dvd_div_mult_self)
    moreover have "v div 2 ^ k * 2 ^ k \<le> q * 2 ^ k"
      using q(3) by (intro mult_le_mono1) auto
    ultimately show ?thesis by linarith
  next
    case False
    then have "22 \<le> k" by simp
    then have "(2::nat) ^ 22 \<le> 2 ^ k" by (intro power_increasing) simp_all
    with q(2) have "2 ^ 52 * 2 ^ 22 \<le> q * 2 ^ k" by (rule mult_le_mono)
    moreover have "T \<le> 2 ^ 52 * 2 ^ 22" by (simp add: T_def)
    ultimately show ?thesis by linarith
  qed
  then show ?thesis by (simp add: q(1) T_def)
qed

subsection \<open>Representable integers\<close>

lemma representable_iff:
  "representable n = (roundNat (nat \<bar>n\<bar>) = nat \<bar>n\<bar> \<and> nat \<bar>n\<bar> < 2 ^ 1024)"
  by (auto simp add: representable_def toNumber_def Let_def)

lemma representable_small: "\<bar>n\<bar> \<le> 2 ^ 53 \<Longrightarrow> representable n"
proof -
  assume a: "\<bar>n\<bar> \<le> 2 ^ 53"
  then have le: "nat \<bar>n\<bar> \<le> 2 ^ 53" by (simp add: nat_le_iff)
  then have r: "roundNat (nat \<bar>n\<bar>) = nat \<bar>n\<bar>" by (rule roundNat_small)
  have "nat \<bar>n\<bar> < 2 ^ 1024" using le by (rule le_less_trans) simp
  with r show ?thesis by (simp add: representable_iff)
qed

lemma representable_minus: "representable (- n) = representable n"
  by (simp add: representable_iff)

lemma toNumber_representable: "toNumber n = Fin m \<Longrightarrow> representable m"
proof -
  assume a: "toNumber n = Fin m"
  define v where "v = roundNat (nat \<bar>n\<bar>)"
  from a have lt: "v < 2 ^ 1024" and m: "m = (if n < 0 then - int v else int v)"
    by (auto simp add: toNumber_def Let_def v_def split: if_splits)
  have "nat \<bar>m\<bar> = v" using m by simp
  moreover have "roundNat v = v" by (simp add: v_def roundNat_idem)
  ultimately show ?thesis using lt by (simp add: representable_iff)
qed

lemma parseDigits_representable: "parseDigits neg R s = Fin m \<Longrightarrow> representable m"
  by (auto simp add: parseDigits_def split: prod.splits bool.splits if_splits
      dest: toNumber_representable)

lemma parseRadix_representable: "parseRadix neg s = Fin m \<Longrightarrow> representable m"
  by (auto simp add: parseRadix_def split: list.splits if_splits
      dest: parseDigits_representable)

lemma parseInt_representable: "parseInt s = Fin m \<Longrightarrow> representable m"
  by (auto simp add: parseInt_def split: list.splits if_splits
      dest: parseRadix_representable)

lemma representable_diff:
  assumes "representable b" and "representable (b + v)" and "0 \<le> v" and "v \<le> b"
  shows "representable (b - v)"
proof -
  have b: "roundNat (nat b) = nat b" using assms(1,3,4) by (simp add: representable_iff)
  have "nat \<bar>b + v\<bar> = nat b + nat v" using assms(3,4) by (simp add: nat_add_distrib)
  then have s: "roundNat (nat b + nat v) = nat b + nat v" and lt: "nat b + nat v < 2 ^ 1024"
    using assms(2) by (simp_all add: representable_iff)
  have "roundNat (nat b - nat v) = nat b - nat v"
    using b s by (rule roundNat_diff) (use assms(3,4) in simp)
  moreover have "nat \<bar>b - v\<bar> = nat b - nat v" using assms(3,4) by (simp add: nat_diff_distrib)
  moreover have "nat b - nat v < 2 ^ 1024" using lt by linarith
  ultimately show ?thesis by (simp add: representable_iff)
qed

lemma sub_exact:
  assumes "representable a" "representable b" "representable (a - b)"
  shows "await (sub (Fin a) (Fin b)) = Inr (Fin (a - b))"
  using assms by (simp add: sub_def num_sub_def strict_ne_def representable_def)

lemma add_exact:
  assumes "representable a" "representable b" "representable (a + b)"
  shows "await (add (Fin a) (Fin b)) = Inr (Fin (a + b))"
  using assms by (simp add: add_def num_sub_def strict_ne_def representable_def)


subsection \<open>Decimal digits\<close>

lemma digitValue_digitChar: "d < 10 \<Longrightarrow> digitValue 10 (digitChar d) = Some d"
proof -
  assume "d < 10"
  then consider "d = 0" | "d = 1" | "d = 2" | "d = 3" | "d = 4"
    | "d = 5" | "d = 6" | "d = 7" | "d = 8" | "d = 9"
    by atomize_elim presburger
  then show ?thesis
    by cases (simp_all add: digitValue_def digitChar_def)
qed

lemma isDecimal_digitChar: "d < 10 \<Longrightarrow> isDecimal (digitChar d)"
proof -
  assume "d < 10"
  then consider "d = 0" | "d = 1" | "d = 2" | "d = 3" | "d = 4"
    | "d = 5" | "d = 6" | "d = 7" | "d = 8" | "d = 9"
    by atomize_elim presburger
  then show ?thesis
    by cases (simp_all add: isDecimal_def digitChar_def)
qed

lemma digitValue_isDecimal: "isDecimal c \<Longrightarrow> digitValue 10 c = Some (of_char c - 48)"
  by (auto simp add: isDecimal_def digitValue_def Let_def)

lemma readDigits_snoc:
  "list_all isDecimal xs \<Longrightarrow> digitValue 10 c = Some v \<Longrightarrow>
   readDigits 10 (xs @ [c]) acc = (True, snd (readDigits 10 xs acc) * 10 + v)"
  by (induction xs arbitrary: acc) (auto simp add: digitValue_isDecimal)

lemma digits_decimal: "list_all isDecimal (digits m)"
proof (induction m rule: digits.induct)
  case (1 n)
  show ?case
  proof (cases "n < 10")
    case True
    then show ?thesis by (simp add: digits.simps [of n] isDecimal_digitChar)
  next
    case False
    then have "list_all isDecimal (digits (n div 10))"
      using 1 by simp
    moreover have "isDecimal (digitChar (n mod 10))"
      by (simp add: isDecimal_digitChar)
    ultimately show ?thesis using False by (simp add: digits.simps [of n])
  qed
qed

lemma readDigits_digits: "readDigits 10 (digits m) (f, 0) = (True, m)"
proof (induction m rule: digits.induct)
  case (1 n)
  show ?case
  proof (cases "n < 10")
    case True
    then show ?thesis by (simp add: digits.simps [of n] digitValue_digitChar)
  next
    case False
    then have ih: "readDigits 10 (digits (n div 10)) (f, 0) = (True, n div 10)"
      using 1 by simp
    have "readDigits 10 (digits (n div 10) @ [digitChar (n mod 10)]) (f, 0)
        = (True, snd (readDigits 10 (digits (n div 10)) (f, 0)) * 10 + n mod 10)"
      by (rule readDigits_snoc) (simp_all add: digits_decimal digitValue_digitChar)
    then show ?thesis using False ih by (simp add: digits.simps [of n])
  qed
qed

lemma digits_nonempty: "digits m \<noteq> []"
  by (subst digits.simps) simp

lemma isDecimal_plain:
  "isDecimal c \<Longrightarrow> \<not> isWhiteSpace c \<and> c \<noteq> CHR ''-'' \<and> c \<noteq> CHR ''+'' \<and> c \<noteq> CHR ''x'' \<and> c \<noteq> CHR ''X''"
  by (auto simp add: isDecimal_def isWhiteSpace_def)

lemma parseInt_decimal:
  assumes "list_all isDecimal s" "s \<noteq> []"
  shows "parseInt s = parseDigits False 10 s"
proof -
  from assms obtain a rest where s: "s = a # rest" by (cases s) auto
  with assms have a: "isDecimal a" and rest: "list_all isDecimal rest" by simp_all
  have p: "parseInt (a # rest) = parseRadix False (a # rest)"
    using isDecimal_plain [OF a] by (simp add: parseInt_def)
  have "parseRadix False (a # rest) = parseDigits False 10 (a # rest)"
  proof (cases rest)
    case Nil
    then show ?thesis by (simp add: parseRadix_def)
  next
    case (Cons b rest')
    with rest have "isDecimal b" by simp
    then show ?thesis using isDecimal_plain [of b] by (simp add: parseRadix_def Cons)
  qed
  with p show ?thesis by (simp add: s)
qed

lemma parseInt_digits: "parseInt (digits m) = toNumber (int m)"
  by (simp add: parseInt_decimal digits_decimal digits_nonempty parseDigits_def readDigits_digits)


lemma parseRadix_decimal:
  assumes "list_all isDecimal s"
  shows "parseRadix neg s = parseDigits neg 10 s"
proof (cases s)
  case Nil
  then show ?thesis by (simp add: parseRadix_def)
next
  case (Cons a rest)
  show ?thesis
  proof (cases rest)
    case Nil
    then show ?thesis by (simp add: parseRadix_def Cons)
  next
    case (Cons b rest')
    with assms \<open>s = a # rest\<close> have "isDecimal b" by simp
    then show ?thesis
      using isDecimal_plain [of b] by (simp add: parseRadix_def Cons \<open>s = a # rest\<close>)
  qed
qed

lemma parseInt_minus_digits: "parseInt (CHR ''-'' # digits m) = toNumber (- int m)"
proof -
  have "parseInt (CHR ''-'' # digits m) = parseRadix True (digits m)"
    by (simp add: parseInt_def isWhiteSpace_def)
  also have "\<dots> = parseDigits True 10 (digits m)"
    by (rule parseRadix_decimal) (rule digits_decimal)
  also have "\<dots> = toNumber (- int m)"
    by (simp add: parseDigits_def readDigits_digits)
  finally show ?thesis .
qed

lemma digits_times_10: "0 < s \<Longrightarrow> digits (s * 10) = digits s @ ''0''"
  by (subst digits.simps) (simp add: digitChar_def)

lemma digits_times_power:
  "0 < s \<Longrightarrow> digits (s * 10 ^ e) = digits s @ replicate e (CHR ''0'')"
proof (induction e)
  case 0
  then show ?case by simp
next
  case (Suc e)
  have "s * 10 ^ Suc e = s * 10 ^ e * 10" by simp
  then have "digits (s * 10 ^ Suc e) = digits (s * 10 ^ e * 10)" by (rule arg_cong)
  also have "\<dots> = digits (s * 10 ^ e) @ ''0''"
    using Suc.prems by (intro digits_times_10) simp
  also have "\<dots> = digits s @ replicate (Suc e) (CHR ''0'')"
    using Suc by (simp add: replicate_append_same)
  finally show ?case .
qed

lemma length_digits: "v < 10 ^ Suc n \<Longrightarrow> length (digits v) \<le> Suc n"
proof (induction n arbitrary: v)
  case 0
  then show ?case by (simp add: digits.simps [of v])
next
  case (Suc n)
  show ?case
  proof (cases "v < 10")
    case True
    then show ?thesis by (simp add: digits.simps [of v])
  next
    case False
    have "v div 10 < 10 ^ Suc n" using Suc.prems by (simp add: less_mult_imp_div_less)
    then have "length (digits (v div 10)) \<le> Suc n" by (rule Suc.IH)
    then show ?thesis using False by (simp add: digits.simps [of v])
  qed
qed

subsection \<open>Printing a number and reading it back\<close>

lemma shortestAt_sound: "shortestAt x e = Some s \<Longrightarrow> roundNat (s * 10 ^ e) = x"
  by (auto simp add: shortestAt_def Let_def split: if_splits)

lemma shortest_sound:
  "roundNat x = x \<Longrightarrow> shortest x e = (s, e') \<Longrightarrow> roundNat (s * 10 ^ e') = x"
proof (induction e)
  case 0
  then show ?case by (simp add: shortest.simps [of x 0])
next
  case (Suc e)
  show ?case
  proof (cases "shortestAt x (Suc e)")
    case None
    with Suc.prems(2) have "shortest x e = (s, e')" by (simp add: shortest.simps [of x "Suc e"])
    with Suc.prems(1) show ?thesis by (rule Suc.IH)
  next
    case (Some t)
    with Suc.prems(2) have "s = t" "e' = Suc e" by (simp_all add: shortest.simps [of x "Suc e"])
    with Some show ?thesis by (simp only: shortestAt_sound)
  qed
qed

lemma stripZeros_value: "stripZeros fuel (s, e) = (s', e') \<Longrightarrow> s' * 10 ^ e' = s * 10 ^ e"
proof (induction fuel arbitrary: s e)
  case 0
  then show ?case by (simp add: stripZeros.simps [of 0 s e])
next
  case (Suc fuel)
  show ?case
  proof (cases "s \<noteq> 0 \<and> s mod 10 = 0")
    case False
    with Suc.prems show ?thesis by (auto simp add: stripZeros.simps [of "Suc fuel" s e])
  next
    case True
    with Suc.prems have "stripZeros fuel (s div 10, e + 1) = (s', e')"
      by (simp add: stripZeros.simps [of "Suc fuel" s e])
    then have "s' * 10 ^ e' = s div 10 * 10 ^ (e + 1)" by (rule Suc.IH)
    also have "\<dots> = (s div 10 * 10) * 10 ^ e" by simp
    also have "s div 10 * 10 = s" using True by (simp add: mod_eq_0_iff_dvd)
    finally show ?thesis .
  qed
qed

lemma roundNat_0: "roundNat 0 = 0"
  by (simp add: roundNat_def)

text \<open>
  Below \<open>10\<^sup>2\<^sup>1\<close> a number prints as the plain digits of a natural number that
  rounds to it.
\<close>

lemma natToString_digits:
  assumes r: "roundNat x = x" and lt: "x < 10 ^ 21"
  shows "\<exists>v. natToString x = digits v \<and> roundNat v = x"
proof -
  obtain s0 e0 where sh: "shortest x (length (digits x) - 1) = (s0, e0)" by (cases "shortest x (length (digits x) - 1)")
  obtain s e where st: "stripZeros (length (digits x)) (s0, e0) = (s, e)" by (cases "stripZeros (length (digits x)) (s0, e0)")
  define v where "v = s * 10 ^ e"
  have "roundNat (s0 * 10 ^ e0) = x" using r sh by (rule shortest_sound)
  moreover have "s * 10 ^ e = s0 * 10 ^ e0" using st by (rule stripZeros_value)
  ultimately have rv: "roundNat v = x" by (simp add: v_def)
  have vlt: "v < 10 ^ Suc 20"
  proof (rule ccontr)
    assume "\<not> v < 10 ^ Suc 20"
    then have "10 ^ 21 \<le> v" by simp
    then have "10 ^ 21 \<le> roundNat v" by (rule roundNat_ge_1e21)
    with rv lt show False by simp
  qed
  then have len: "length (digits v) \<le> Suc 20" by (rule length_digits)
  have nat: "natToString x =
      (if length (digits s) + e \<le> 21 then digits s @ replicate e (CHR ''0'')
       else take 1 (digits s) @ (if length (digits s) = 1 then [] else ''.'' @ drop 1 (digits s))
            @ ''e+'' @ digits (length (digits s) + e - 1))"
    unfolding natToString_def Let_def sh st by (simp only: prod.case)
  show ?thesis
  proof (cases "s = 0")
    case True
    then have "v = 0" by (simp add: v_def)
    with rv have x: "x = 0" by (simp add: roundNat_0)
    have "natToString 0 = digits 0"
      by (simp add: natToString_def digits.simps [of 0] shortest.simps [of 0 0]
          stripZeros.simps [of _ 0 0])
    with x r show ?thesis by auto
  next
    case False
    then have d: "digits v = digits s @ replicate e (CHR ''0'')"
      unfolding v_def by (intro digits_times_power) simp
    with len have "length (digits s) + e \<le> 21" by simp
    with nat d have "natToString x = digits v" by simp
    with rv show ?thesis by blast
  qed
qed

lemma roundNat_large_ge: "2 ^ 53 \<le> m \<Longrightarrow> 2 ^ 53 \<le> roundNat m"
proof -
  assume ge: "2 ^ 53 \<le> m"
  from roundNat_form [OF ge] obtain q where
    q: "roundNat m = q * 2 ^ (bit_length m - 53)" "2 ^ 52 \<le> q" "0 < bit_length m - 53"
    by blast
  from q(3) have "(2::nat) ^ 1 \<le> 2 ^ (bit_length m - 53)"
    by (intro power_increasing) simp_all
  with q(2) have "2 ^ 52 * 2 ^ 1 \<le> q * 2 ^ (bit_length m - 53)" by (rule mult_le_mono)
  then show ?thesis by (simp add: q(1))
qed

lemma natToString_small: "x < 2 ^ 53 \<Longrightarrow> natToString x = digits x"
proof -
  assume x: "x < 2 ^ 53"
  then have r: "roundNat x = x" by (simp add: roundNat_def)
  moreover have "x < 10 ^ 21" using x by simp
  ultimately obtain v where v: "natToString x = digits v" "roundNat v = x"
    using natToString_digits by blast
  have "v < 2 ^ 53"
  proof (rule ccontr)
    assume "\<not> v < 2 ^ 53"
    then have "2 ^ 53 \<le> roundNat v" by (intro roundNat_large_ge) simp
    with v(2) x show False by simp
  qed
  then have "roundNat v = v" by (simp add: roundNat_def)
  with v show ?thesis by simp
qed

lemma parseInt_natToString:
  assumes "roundNat x = x" and "x < 10 ^ 21"
  shows "parseInt (natToString x) = Fin (int x)"
    and "parseInt (CHR ''-'' # natToString x) = Fin (- int x)"
proof -
  from assms obtain v where v: "natToString x = digits v" "roundNat v = x"
    using natToString_digits by blast
  have lt: "x < 2 ^ 1024" using assms(2) by (rule less_trans) simp
  have "toNumber (int v) = Fin (int x)"
    using v(2) lt by (simp add: toNumber_def Let_def)
  then show "parseInt (natToString x) = Fin (int x)"
    by (simp add: v(1) parseInt_digits)
  have "toNumber (- int v) = Fin (- int x)"
    using v(2) lt by (auto simp add: toNumber_def Let_def roundNat_0)
  then show "parseInt (CHR ''-'' # natToString x) = Fin (- int x)"
    by (simp add: v(1) parseInt_minus_digits)
qed

text \<open>
  An exactly representable integer of magnitude below \<open>10\<^sup>2\<^sup>1\<close> is read back from
  its printed form.
\<close>

lemma parseInt_toString:
  assumes "representable n" and "\<bar>n\<bar> < 10 ^ 21"
  shows "parseInt (toString (Fin n)) = Fin n"
proof -
  have r: "roundNat (nat \<bar>n\<bar>) = nat \<bar>n\<bar>" using assms(1) by (simp add: representable_iff)
  have lt: "nat \<bar>n\<bar> < 10 ^ 21" using assms(2) by (simp add: nat_less_iff)
  show ?thesis
  proof (cases "n < 0")
    case True
    then have "nat \<bar>n\<bar> = nat (- n)" by simp
    with r lt have "parseInt (CHR ''-'' # natToString (nat (- n))) = Fin (- int (nat (- n)))"
      by (intro parseInt_natToString) simp_all
    with True show ?thesis by simp
  next
    case False
    then have "nat \<bar>n\<bar> = nat n" by simp
    with r lt have "parseInt (natToString (nat n)) = Fin (int (nat n))"
      by (intro parseInt_natToString) simp_all
    with False show ?thesis by simp
  qed
qed

lemma toString_small: "0 \<le> n \<Longrightarrow> n < 2 ^ 53 \<Longrightarrow> toString (Fin n) = digits (nat n)"
  by (simp add: natToString_small nat_less_iff)
section \<open>The ledger and the operations: basic facts\<close>

lemma absent_getState:
  "absent (getState c w k) = (state w k = None \<or> state w k = Some [])"
  by (cases "onMissing c") (auto simp add: getState_def absent_def split: option.splits)

lemma getState_present: "state w k = Some s \<Longrightarrow> getState c w k = Some s"
  by (simp add: getState_def)

lemma createCompositeKey_balance:
  "keyable c a \<Longrightarrow> createCompositeKey c balancePrefix [a] = Inr (balanceKeyOf a)"
  by (simp add: createCompositeKey_def keyable_def balancePrefix_def balanceKeyOf_def)

lemma createCompositeKey_history:
  "keyable c a \<Longrightarrow> createCompositeKey c transactionDataPrefix [a] = Inr (historyKeyOf a)"
  by (simp add: createCompositeKey_def keyable_def transactionDataPrefix_def historyKeyOf_def)

lemma createCompositeKey_refused:
  "\<not> keyable c a \<Longrightarrow> createCompositeKey c p [a] = Inl InvalidKey"
  by (auto simp add: createCompositeKey_def keyable_def)

lemma CheckInitialized_iff:
  "(CheckInitialized c w = Inr ()) = (\<exists>n. state w nameKey = Some n \<and> n \<noteq> [])"
  by (auto simp add: CheckInitialized_def Let_def absent_getState)

lemma CheckInitialized_missing:
  "state w nameKey = None \<Longrightarrow> CheckInitialized c w = Inl NotInitialized"
  by (simp add: CheckInitialized_def Let_def absent_getState)

lemma CheckInitialized_putState:
  "k \<noteq> nameKey \<Longrightarrow> CheckInitialized c (putState k v w) = CheckInitialized c w"
  by (simp add: CheckInitialized_def getState_def putState_def)


lemma balanceKeyOf_not_nameKey: "balanceKeyOf a \<noteq> nameKey"
  by (simp add: balanceKeyOf_def nameKey_def)

lemma historyAt_putState: "historyAt (putState k v w) k' = historyAt w k'"
  by (simp add: historyAt_def putState_def)


lemma historyKeyOf_inj: "(historyKeyOf a = historyKeyOf b) = (a = b)"
  by (simp add: historyKeyOf_def)


lemma parseInt_Nil: "parseInt [] = NaN"
  by (simp add: parseInt_def)




text \<open>Whatever is read as a balance is a double.\<close>

lemma balanceNumber_representable: "balanceNumber w a = Some (Fin n) \<Longrightarrow> representable n"
  by (auto simp add: balanceNumber_def dest: parseInt_representable)

subsection \<open>The history writers\<close>

lemma setAdminTransactionData_ok:
  "CheckInitialized c w = Inr () \<Longrightarrow> keyable c to \<Longrightarrow>
   setAdminTransactionData c to val w =
     (Inr True,
      putTxData (historyKeyOf to)
        (historyAt w (historyKeyOf to)
           @ [\<lparr>tx_from = ''admin'', tx_to = to, tx_value = val, tx_time = txTimestamp c\<rparr>]) w)"
  by (simp add: setAdminTransactionData_def orThrow_def Let_def getTxData_def historyAt_def
      createCompositeKey_history split: option.splits)



subsection \<open>Transfers that go through\<close>

lemma Transfer_succeeds:
  assumes init: "CheckInitialized c w = Inr ()"
    and k1: "keyable c (clientID c)" and k2: "keyable c to"
    and v: "parseInt val = Fin v" "0 \<le> v" "representable v"
    and src: "state w (balanceKeyOf (clientID c)) = Some s1" "parseInt s1 = Fin b1"
             "v \<le> b1" "representable b1" "representable (b1 - v)"
    and dst: "state w (balanceKeyOf to) = Some s2" "parseInt s2 = Fin b2"
             "representable b2" "representable (b2 + v)"
  shows "Transfer c to val w =
     (Inr True,
      putTxData (historyKeyOf (clientID c))
        (historyAt w (historyKeyOf (clientID c))
           @ [\<lparr>tx_from = ''admin'', tx_to = clientID c, tx_value = to, tx_time = txTimestamp c\<rparr>])
        (putState (balanceKeyOf to) (toString (Fin (b2 + v)))
          (putState (balanceKeyOf (clientID c)) (toString (Fin (b1 - v))) w)))"
proof -
  have s1: "s1 \<noteq> []" using src(2) by (auto simp add: parseInt_Nil)
  have s2: "s2 \<noteq> []" using dst(2) by (auto simp add: parseInt_Nil)
  have g1: "getState c w (balanceKeyOf (clientID c)) = Some s1"
    using src(1) by (rule getState_present)
  have g2: "getState c w (balanceKeyOf to) = Some s2"
    using dst(1) by (rule getState_present)
  have init2: "CheckInitialized c
      (putState (balanceKeyOf to) (toString (Fin (b2 + v)))
          (putState (balanceKeyOf (clientID c)) (toString (Fin (b1 - v))) w)) = Inr ()"
    using init by (simp add: CheckInitialized_putState balanceKeyOf_not_nameKey)
  note adm = setAdminTransactionData_ok [OF init2 k1]
  have nlt: "\<not> num_lt (Fin b1) (Fin v)" using src(3) by simp
  show ?thesis
    unfolding Transfer_def
    using init v(2) nlt s1 s2
    by (simp add: orThrow_def andThen_def Let_def v(1) g1 g2 absent_def parseBuffer_def
        createCompositeKey_balance k1 k2
        src(2) dst(2) sub_exact add_exact v(3) src(4,5) dst(3,4) adm
        historyAt_putState del: toString.simps)
qed


subsection \<open>Transfers that are rejected\<close>



lemma Transfer_insufficient:
  "CheckInitialized c w = Inr () \<Longrightarrow> \<not> num_lt (parseInt val) (Fin 0) \<Longrightarrow>
   keyable c (clientID c) \<Longrightarrow>
   state w (balanceKeyOf (clientID c)) = Some s \<Longrightarrow> s \<noteq> [] \<Longrightarrow>
   num_lt (parseInt s) (parseInt val) \<Longrightarrow>
   Transfer c to val w = (Inl InsufficientFunds, w)"
  by (simp add: Transfer_def orThrow_def Let_def getState_present absent_def parseBuffer_def
      createCompositeKey_balance)

lemma TransferFrom_insufficient:
  "from \<noteq> to \<Longrightarrow> \<not> num_lt (parseInt val) (Fin 0) \<Longrightarrow>
   keyable c from \<Longrightarrow>
   state w (balanceKeyOf from) = Some s \<Longrightarrow> s \<noteq> [] \<Longrightarrow>
   num_lt (parseInt s) (parseInt val) \<Longrightarrow>
   TransferFrom c from to val w = (Inl InsufficientFunds, w)"
  by (simp add: TransferFrom_def orThrow_def Let_def getState_present absent_def parseBuffer_def
      createCompositeKey_balance)

lemma Transfer_no_destination:
  "CheckInitialized c w = Inr () \<Longrightarrow> \<not> num_lt (parseInt val) (Fin 0) \<Longrightarrow>
   keyable c (clientID c) \<Longrightarrow>
   state w (balanceKeyOf (clientID c)) = Some s \<Longrightarrow> s \<noteq> [] \<Longrightarrow>
   \<not> num_lt (parseInt s) (parseInt val) \<Longrightarrow>
   keyable c to \<Longrightarrow> state w (balanceKeyOf to) = None \<Longrightarrow>
   Transfer c to val w = (Inl DestinationNotSignedUp, w)"
  by (simp add: Transfer_def orThrow_def Let_def getState_present absent_def parseBuffer_def
      createCompositeKey_balance absent_getState [unfolded absent_def])

lemma TransferFrom_no_destination:
  "from \<noteq> to \<Longrightarrow> \<not> num_lt (parseInt val) (Fin 0) \<Longrightarrow>
   keyable c from \<Longrightarrow>
   state w (balanceKeyOf from) = Some s \<Longrightarrow> s \<noteq> [] \<Longrightarrow>
   \<not> num_lt (parseInt s) (parseInt val) \<Longrightarrow>
   keyable c to \<Longrightarrow> state w (balanceKeyOf to) = None \<Longrightarrow>
   TransferFrom c from to val w = (Inl DestinationNotSignedUp, w)"
  by (simp add: TransferFrom_def orThrow_def Let_def getState_present absent_def parseBuffer_def
      createCompositeKey_balance absent_getState [unfolded absent_def])

subsection \<open>The amount zero\<close>



section \<open>Concrete runs\<close>

lemmas ledger_defs =
  getState_def putState_def getTxData_def putTxData_def setEvent_def absent_def
  bufferToString_def parseBuffer_def orThrow_def andThen_def commit_def
  createCompositeKey_def balancePrefix_def transactionDataPrefix_def nameKey_def
  symbolKey_def decimalsKey_def totalSupplyKey_def balanceKeyOf_def historyKeyOf_def
  historyAt_def returning_def submit_def emptyWorld_def

lemmas contract_defs =
  CheckInitialized_def Initialize_def signup_def TokenName_def Symbol_def Decimals_def
  TotalSupply_def BalanceOf_def ClientAccountBalance_def ClientAccountID_def
  setFromTransactionData_def setToTransactionData_def setAdminTransactionData_def
  getTransactionData_def Transfer_def TransferFrom_def Mint_def Burn_def

lemma parse_examples:
  "parseInt ''0'' = Fin 0"
  "parseInt ''1'' = Fin 1"
  "parseInt ''4'' = Fin 4"
  "parseInt ''10'' = Fin 10"
  "parseInt ''50'' = Fin 50"
  "parseInt ''100'' = Fin 100"
  "parseInt ''-1'' = Fin (- 1)"
  "parseInt ''[object Promise]'' = NaN"
  "parseInt ''9007199254740992'' = Fin 9007199254740992"
  "parseInt ''1000000000000000000000'' = Fin 1000000000000000000000"
  "parseInt ''1e+21'' = Fin 1"
  by (simp_all add: parseInt_def isWhiteSpace_def parseRadix_def parseDigits_def digitValue_def
      toNumber_def roundNat_def bit_length.simps)

lemma roundNat_examples:
  "roundNat 1000000000000000000000 = 1000000000000000000000"
  "roundNat 2000000000000000000000 = 2000000000000000000000"
  by (simp_all add: roundNat_def bit_length.simps)

lemma natToString_examples:
  "natToString 0 = ''0''"
  "natToString 14 = ''14''"
  "natToString 1000000000000000000000 = ''1e+21''"
proof -
  show "natToString 0 = ''0''"
    by (simp add: natToString_small digits.simps digitChar_def)
  show "natToString 14 = ''14''"
    by (simp add: natToString_small digits.simps digitChar_def)
  have d: "digits 1000000000000000000000 = ''1000000000000000000000''"
    by (simp add: digits.simps digitChar_def)
  have a: "shortestAt 1000000000000000000000 21 = Some 1"
    by (simp add: shortestAt_def roundNat_examples)
  have s: "shortest 1000000000000000000000 21 = (1, 21)"
    by (simp add: shortest.simps [of _ 21] a)
  have z: "stripZeros 22 (Suc 0, 21) = (Suc 0, 21)"
    by (simp add: stripZeros.simps [of 22])
  have d1: "digits (Suc 0) = ''1''" "digits 21 = ''21''"
    by (simp_all add: digits.simps digitChar_def)
  have l: "length (digits 1000000000000000000000) = 22"
    by (simp add: d)
  show "natToString 1000000000000000000000 = ''1e+21''"
    unfolding natToString_def l by (simp add: s z d1)
qed

lemma representable_1e21: "representable 1000000000000000000000"
  by (simp add: representable_iff roundNat_examples)

lemmas eval_defs = Let_def ledger_defs contract_defs parse_examples
  num_le_def promiseToString_def

lemma toString_0: "toString (Fin 0) = ''0''"
  by (simp add: natToString_examples)

lemma contexts:
  "clientID alice = ''alice''" "txTimestamp alice = ''1700000001''"
  "clientID admin = ''minter''" "txTimestamp admin = ''1700000000''"
  "keyable alice ''alice''" "keyable alice ''bob''" "keyable alice ''carol''"
  "keyable admin ''minter''" "keyable admin ''bob''"
  by (simp_all add: alice_def admin_def keyable_def)

lemma initialized_eq:
  "initialized = \<lparr>state = [Simple ''name'' \<mapsto> ''Token'', Simple ''symbol'' \<mapsto> ''TKN'',
                             Simple ''decimals'' \<mapsto> ''2''],
                   txdata = Map.empty, events = []\<rparr>"
  by (simp add: initialized_def admin_def eval_defs)

lemma signedUp_eq:
  "signedUp = \<lparr>state = [Simple ''name'' \<mapsto> ''Token'', Simple ''symbol'' \<mapsto> ''TKN'',
                          Simple ''decimals'' \<mapsto> ''2'',
                          Composite ''balance'' [''alice''] \<mapsto> ''0'',
                          Composite ''balance'' [''bob''] \<mapsto> ''0''],
                txdata = Map.empty, events = []\<rparr>"
  by (simp add: signedUp_def initialized_eq alice_def eval_defs toString_0 del: toString.simps)

lemma signedUp_facts:
  "CheckInitialized alice signedUp = Inr ()"
  "reads signedUp ''alice'' 0"
  "reads signedUp ''bob'' 0"
  "state signedUp (balanceKeyOf ''alice'') = Some ''0''"
  "state signedUp (balanceKeyOf ''bob'') = Some ''0''"
  "state signedUp (balanceKeyOf ''carol'') = None"
  "historyAt signedUp k = []"
  by (simp_all add: CheckInitialized_iff reads_def signedUp_eq nameKey_def balanceKeyOf_def
      balancePrefix_def parse_examples historyAt_def)

text \<open>Facts behind the claims about single operations.\<close>

lemma TransferFrom_emptyWorld:
  "TransferFrom c from to val emptyWorld =
     (Inl (if from = to then SelfTransferRejected
           else if num_lt (parseInt val) (Fin 0) then InvalidAmount
           else if \<not> keyable c from then InvalidKey
           else SourceAccountNotFound), emptyWorld)"
proof (cases "keyable c from")
  case True
  then show ?thesis
    by (cases "onMissing c")
       (simp_all add: TransferFrom_def Let_def orThrow_def createCompositeKey_balance
          getState_def absent_def emptyWorld_def)
next
  case False
  then show ?thesis
    by (simp add: TransferFrom_def Let_def orThrow_def createCompositeKey_refused)
qed

lemma gated_operations:
  assumes "state w nameKey = None"
  shows "invoke c (CallMint amount) w = (Inl NotInitialized, w)"
    and "invoke c (CallBurn amount) w = (Inl NotInitialized, w)"
    and "invoke c (CallTransfer to val) w = (Inl NotInitialized, w)"
    and "invoke c (CallSignup a) w = (Inl NotInitialized, w)"
    and "invoke c (CallBalanceOf a) w = (Inl NotInitialized, w)"
    and "invoke c CallClientAccountBalance w = (Inl NotInitialized, w)"
    and "invoke c CallClientAccountID w = (Inl NotInitialized, w)"
    and "invoke c CallTokenName w = (Inl NotInitialized, w)"
    and "invoke c CallSymbol w = (Inl NotInitialized, w)"
    and "invoke c CallDecimals w = (Inl NotInitialized, w)"
    and "invoke c CallTotalSupply w = (Inl NotInitialized, w)"
    and "invoke c (CallGetTransactionData a) w = (Inl NotInitialized, w)"
  using CheckInitialized_missing [OF assms, of c]
  by (simp_all add: returning_def orThrow_def Mint_def Burn_def Transfer_def signup_def
      BalanceOf_def ClientAccountBalance_def ClientAccountID_def TokenName_def Symbol_def
      Decimals_def TotalSupply_def getTransactionData_def)

lemma TotalSupply_missing:
  assumes "CheckInitialized c w = Inr ()" and "state w totalSupplyKey = None"
  shows "TotalSupply c w =
     (case onMissing c of Undefined \<Rightarrow> (Inl TypeError, w) | EmptyBuffer \<Rightarrow> (Inr NaN, w))"
  using assms
  by (cases "onMissing c")
     (simp_all add: TotalSupply_def orThrow_def Let_def getState_def parseBuffer_def parseInt_Nil)

lemma createCompositeKey_Inr:
  "createCompositeKey c p [a] = Inr k \<Longrightarrow> k = Composite p [a]"
  by (simp add: createCompositeKey_def split: if_splits)

lemma setAdminTransactionData_txdata:
  assumes "setAdminTransactionData c to val w = (Inr r, w')"
  shows "txdata w' = (txdata w)(historyKeyOf to \<mapsto>
           historyAt w (historyKeyOf to)
             @ [\<lparr>tx_from = ''admin'', tx_to = to, tx_value = val, tx_time = txTimestamp c\<rparr>])"
  using assms
  by (auto simp add: setAdminTransactionData_def orThrow_def Let_def getTxData_def putTxData_def
      historyAt_def historyKeyOf_def dest!: createCompositeKey_Inr
      split: sum.splits option.splits)

lemma Transfer_history:
  assumes "Transfer c to val w = (Inr r, w')"
  shows "txdata w' = (txdata w)(historyKeyOf (clientID c) \<mapsto>
           historyAt w (historyKeyOf (clientID c))
             @ [\<lparr>tx_from = ''admin'', tx_to = clientID c, tx_value = to,
                 tx_time = txTimestamp c\<rparr>])"
proof -
  from assms obtain w2 r' where
    a: "setAdminTransactionData c (clientID c) to w2 = (Inr r', w')"
    and t: "txdata w2 = txdata w"
    by (auto simp add: Transfer_def orThrow_def andThen_def Let_def putState_def
        split: sum.splits if_splits prod.splits)
  from setAdminTransactionData_txdata [OF a] t show ?thesis
    by (simp add: historyAt_def)
qed

lemma Mint_writes_promise:
  assumes "Mint c amount w = (Inr r, w')"
  shows "state w' (balanceKeyOf (clientID c)) = Some ''[object Promise]''
       \<and> state w' totalSupplyKey = Some ''[object Promise]''"
  using assms
  by (auto simp add: Mint_def orThrow_def Let_def putState_def setEvent_def promiseToString_def
      balanceKeyOf_def totalSupplyKey_def dest!: createCompositeKey_Inr
      split: sum.splits if_splits)

lemma afterMint100_eq:
  "afterMint100 =
      \<lparr>state = [Simple ''name'' \<mapsto> ''Token'', Simple ''symbol'' \<mapsto> ''TKN'',
                Simple ''decimals'' \<mapsto> ''2'',
                Composite ''balance'' [''minter''] \<mapsto> ''[object Promise]'',
                Simple ''totalSupply'' \<mapsto> ''[object Promise]''],
       txdata = Map.empty,
       events = [\<lparr>ev_name = ''Transfer'', ev_from = ''0x0'', ev_to = ''minter'',
                  ev_value = Fin 100\<rparr>]\<rparr>"
  by (simp add: afterMint100_def initialized_eq admin_def eval_defs)

lemma afterMint150_eq:
  "afterMint150 =
      \<lparr>state = [Simple ''name'' \<mapsto> ''Token'', Simple ''symbol'' \<mapsto> ''TKN'',
                Simple ''decimals'' \<mapsto> ''2'',
                Composite ''balance'' [''minter''] \<mapsto> ''[object Promise]'',
                Simple ''totalSupply'' \<mapsto> ''[object Promise]''],
       txdata = Map.empty,
       events = [\<lparr>ev_name = ''Transfer'', ev_from = ''0x0'', ev_to = ''minter'',
                  ev_value = Fin 100\<rparr>,
                 \<lparr>ev_name = ''Transfer'', ev_from = ''0x0'', ev_to = ''minter'',
                  ev_value = Fin 50\<rparr>]\<rparr>"
  by (simp add: afterMint150_def afterMint100_eq admin_def eval_defs)

lemma afterMint150_submitAll:
  "afterMint150 = submitAll [(admin, CallMint ''100''), (admin, CallMint ''50'')] initialized"
  by (simp add: afterMint150_def afterMint100_def)



section \<open>The claims\<close>

text \<open>
  Claim C1 (conservation). From the initialized empty ledger the administrator mints
  100. \<^verbatim>\<open>Mint\<close> returns \<^verbatim>\<open>true\<close>, and what it has stored as the minter's
  balance and as the total supply is the text \<^verbatim>\<open>[object Promise]\<close>: both read
  as \<^verbatim>\<open>NaN\<close>, and the stored total supply is not equal to the sum of the stored
  balances.
\<close>

theorem C1_Mint_breaks_conservation:
  "fst (invoke admin (CallMint ''100'') initialized) = Inr (RBool True)
   \<and> afterMint100 = submit admin (CallMint ''100'') initialized
   \<and> state afterMint100 totalSupplyKey = Some ''[object Promise]''
   \<and> state afterMint100 (balanceKeyOf ''minter'') = Some ''[object Promise]''
   \<and> supplyNumber afterMint100 = Some NaN
   \<and> balanceNumber afterMint100 ''minter'' = Some NaN
   \<and> \<not> conservation [''minter''] afterMint100"
proof -
  have "fst (invoke admin (CallMint ''100'') initialized) = Inr (RBool True)"
    by (simp add: initialized_eq admin_def eval_defs)
  then show ?thesis
    by (simp add: afterMint100_eq conservation_def supplyNumber_def
      balanceNumber_def balanceKeyOf_def balancePrefix_def
      totalSupplyKey_def parse_examples strict_ne_def del: invoke.simps)
       (simp add: afterMint100_def [symmetric] afterMint100_eq)
qed

text \<open>
  Claim C2. After \<^verbatim>\<open>Mint(100)\<close> and \<^verbatim>\<open>Mint(50)\<close> by the administrator the
  two \<^verbatim>\<open>Transfer\<close> events carry the values 100 and 50, but the stored balance of
  the minter and the stored total supply are the text \<^verbatim>\<open>[object Promise]\<close>, which
  \<^verbatim>\<open>BalanceOf\<close> and \<^verbatim>\<open>TotalSupply\<close> return as \<^verbatim>\<open>NaN\<close>, not 150.
\<close>

theorem C2_Mint_100_then_50:
  "afterMint150 = submitAll [(admin, CallMint ''100''), (admin, CallMint ''50'')] initialized
   \<and> state afterMint150 (balanceKeyOf ''minter'') = Some ''[object Promise]''
   \<and> state afterMint150 totalSupplyKey = Some ''[object Promise]''
   \<and> fst (BalanceOf admin ''minter'' afterMint150) = Inr NaN
   \<and> fst (TotalSupply admin afterMint150) = Inr NaN
   \<and> map ev_value (events afterMint150) = [Fin 100, Fin 50]"
proof -
  have "state afterMint150 (balanceKeyOf ''minter'') = Some ''[object Promise]''
   \<and> state afterMint150 totalSupplyKey = Some ''[object Promise]''
   \<and> fst (BalanceOf admin ''minter'' afterMint150) = Inr NaN
   \<and> fst (TotalSupply admin afterMint150) = Inr NaN
   \<and> map ev_value (events afterMint150) = [Fin 100, Fin 50]"
    by (simp add: afterMint150_eq admin_def eval_defs)
  with afterMint150_submitAll show ?thesis by simp
qed

text \<open>
  Claim C3. \<open>alice\<close> and \<open>bob\<close> have signed up and \<open>alice\<close> calls
  \<^verbatim>\<open>Transfer(bob, 0)\<close>. The call succeeds; nothing is recorded under the destination
  \<open>bob\<close>, and the one record appended lies under the sender's own key, with
  \<open>to\<close> the sender and \<open>value\<close> the destination address.
\<close>

theorem C3_Transfer_history_key:
  "fst (Transfer alice ''bob'' ''0'' signedUp) = Inr True
   \<and> txdata (snd (Transfer alice ''bob'' ''0'' signedUp)) (historyKeyOf ''bob'') = None
   \<and> txdata (snd (Transfer alice ''bob'' ''0'' signedUp)) (historyKeyOf ''alice'')
        = Some [\<lparr>tx_from = ''admin'', tx_to = ''alice'', tx_value = ''bob'',
                 tx_time = ''1700000001''\<rparr>]"
proof -
  have r0: "representable 0" by (intro representable_small) simp
  have cid: "clientID alice = ''alice''" "txTimestamp alice = ''1700000001''"
    by (simp_all add: alice_def)
  have eq: "Transfer alice ''bob'' ''0'' signedUp =
     (Inr True,
      putTxData (historyKeyOf (clientID alice))
        (historyAt signedUp (historyKeyOf (clientID alice))
           @ [\<lparr>tx_from = ''admin'', tx_to = clientID alice, tx_value = ''bob'',
               tx_time = txTimestamp alice\<rparr>])
        (putState (balanceKeyOf ''bob'') (toString (Fin (0 + 0)))
          (putState (balanceKeyOf (clientID alice)) (toString (Fin (0 - 0))) signedUp)))"
    by (rule Transfer_succeeds [where ?s1.0 = "''0''" and ?s2.0 = "''0''"])
       (simp_all add: signedUp_facts parse_examples r0 cid contexts)
  have h: "txdata signedUp k = None" for k
    by (simp add: signedUp_eq)
  show ?thesis
    unfolding eq
    by (simp add: putTxData_def putState_def historyKeyOf_inj cid signedUp_facts h)
qed

text \<open>
  Claim C4, as amended. In an initialized ledger where the caller's identity is one the
  host builds keys for and the caller's account reads as the integer \<open>b\<close>,
  \<^verbatim>\<open>Transfer(to, v)\<close> with \<open>to\<close> the caller's own identity and
  \<open>0 \<le> v \<le> b\<close> succeeds whenever \<open>b + v\<close> is a double below \<open>10\<^sup>2\<^sup>1\<close>;
  the only balance record that changes is the caller's, which becomes \<open>b + v\<close> (the
  second write overwrites the first), so the sum of all balances grows by \<open>v\<close>.
\<close>

theorem C4_self_transfer_inflates:
  assumes "CheckInitialized c w = Inr ()"
    and "keyable c (clientID c)"
    and "state w (balanceKeyOf (clientID c)) = Some s"
    and "parseInt s = Fin b"
    and "parseInt val = Fin v"
    and "0 \<le> v" and "v \<le> b"
    and "representable (b + v)" and "b + v < 10 ^ 21"
  shows "fst (Transfer c (clientID c) val w) = Inr True
       \<and> state (snd (Transfer c (clientID c) val w))
            = (state w)(balanceKeyOf (clientID c) \<mapsto> toString (Fin (b + v)))
       \<and> balanceNumber (snd (Transfer c (clientID c) val w)) (clientID c) = Some (Fin (b + v))"
proof -
  have rv: "representable v" using assms(5) by (rule parseInt_representable)
  have rb: "representable b" using assms(4) by (rule parseInt_representable)
  note rs = assms(8)
  have rd: "representable (b - v)" using rb rs assms(6,7) by (rule representable_diff)
  have eq: "Transfer c (clientID c) val w =
     (Inr True,
      putTxData (historyKeyOf (clientID c))
        (historyAt w (historyKeyOf (clientID c))
           @ [\<lparr>tx_from = ''admin'', tx_to = clientID c, tx_value = clientID c,
               tx_time = txTimestamp c\<rparr>])
        (putState (balanceKeyOf (clientID c)) (toString (Fin (b + v)))
          (putState (balanceKeyOf (clientID c)) (toString (Fin (b - v))) w)))"
    using assms(1,2,2,5,6) rv assms(3,4,7) rb rd assms(3,4) rb rs
    by (rule Transfer_succeeds)
  have p: "parseInt (toString (Fin (b + v))) = Fin (b + v)"
    using rs assms(6,7,9) by (intro parseInt_toString) simp_all
  show ?thesis
    by (simp add: eq putTxData_def putState_def balanceNumber_def p del: toString.simps)
qed

theorem C4_witness:
  "fst (Transfer alice ''alice'' ''4'' funded) = Inr True
   \<and> state (snd (Transfer alice ''alice'' ''4'' funded)) (balanceKeyOf ''alice'') = Some ''14''
   \<and> balanceNumber funded ''alice'' = Some (Fin 10)
   \<and> balanceNumber (snd (Transfer alice ''alice'' ''4'' funded)) ''alice'' = Some (Fin 14)"
proof -
  have cid: "clientID alice = ''alice''" by (simp add: alice_def)
  have key: "keyable alice (clientID alice)" by (simp add: contexts)
  have init: "CheckInitialized alice funded = Inr ()"
    by (simp add: funded_def CheckInitialized_putState balanceKeyOf_not_nameKey signedUp_facts)
  have st: "state funded (balanceKeyOf (clientID alice)) = Some ''10''"
    by (simp add: funded_def putState_def cid)
  have rs: "representable (10 + 4)" by (intro representable_small) simp
  have lt: "(10::int) + 4 < 10 ^ 21" by simp
  note t = C4_self_transfer_inflates
    [OF init key st parse_examples(4) parse_examples(3) _ _ rs lt]
  have b: "balanceNumber funded ''alice'' = Some (Fin 10)"
    using st by (simp add: balanceNumber_def cid parse_examples)
  show ?thesis
    using t b by (simp add: cid natToString_examples)
qed

text \<open>
  Claim C4 as stated fails in two ways. Where the sum is not a double: with the
  balance \<open>2\<^sup>5\<^sup>3\<close> and the amount 1 the subtraction passes its guard, the
  addition rounds back to \<open>2\<^sup>5\<^sup>3\<close>, the guard of \<^verbatim>\<open>add\<close> throws, and the
  transfer fails. Where the sum reaches \<open>10\<^sup>2\<^sup>1\<close>: with the balance
  \<open>10\<^sup>2\<^sup>1\<close> and the amount 0 the transfer succeeds, the balance is written as
  \<^verbatim>\<open>1e+21\<close>, and it reads as 1 from then on.
\<close>

theorem C4_counterexample:
  "CheckInitialized alice rich = Inr ()
   \<and> clientID alice = ''alice''
   \<and> balanceNumber rich ''alice'' = Some (Fin 9007199254740992)
   \<and> parseInt ''1'' = Fin 1
   \<and> Transfer alice ''alice'' ''1'' rich = (Inl ArithmeticOverflow, rich)
   \<and> CheckInitialized alice huge = Inr ()
   \<and> balanceNumber huge ''alice'' = Some (Fin 1000000000000000000000)
   \<and> parseInt ''0'' = Fin 0
   \<and> fst (Transfer alice ''alice'' ''0'' huge) = Inr True
   \<and> state (snd (Transfer alice ''alice'' ''0'' huge)) (balanceKeyOf ''alice'') = Some ''1e+21''
   \<and> balanceNumber (snd (Transfer alice ''alice'' ''0'' huge)) ''alice'' = Some (Fin 1)"
proof -
  have cid: "clientID alice = ''alice''" by (simp add: alice_def)
  have key: "keyable alice (clientID alice)" by (simp add: contexts)
  have init: "CheckInitialized alice rich = Inr ()"
    by (simp add: rich_def CheckInitialized_putState balanceKeyOf_not_nameKey signedUp_facts)
  have st: "state rich (balanceKeyOf ''alice'') = Some ''9007199254740992''"
    by (simp add: rich_def putState_def)
  have b: "balanceNumber rich ''alice'' = Some (Fin 9007199254740992)"
    using st by (simp add: balanceNumber_def parse_examples)
  have s: "await (sub (Fin 9007199254740992) (Fin 1)) = Inr (Fin 9007199254740991)"
    by (simp add: sub_def num_sub_def strict_ne_def toNumber_def roundNat_def bit_length.simps)
  have a: "await (add (Fin 9007199254740992) (Fin 1)) = Inl ArithmeticOverflow"
    by (simp add: add_def num_sub_def strict_ne_def toNumber_def roundNat_def bit_length.simps)
  have one: "Transfer alice ''alice'' ''1'' rich = (Inl ArithmeticOverflow, rich)"
    using init key
    by (simp add: Transfer_def orThrow_def Let_def cid parse_examples getState_present st
        absent_def parseBuffer_def s a createCompositeKey_balance)
  have init': "CheckInitialized alice huge = Inr ()"
    by (simp add: huge_def CheckInitialized_putState balanceKeyOf_not_nameKey signedUp_facts)
  have st': "state huge (balanceKeyOf (clientID alice)) = Some ''1000000000000000000000''"
    by (simp add: huge_def putState_def cid)
  have b': "balanceNumber huge ''alice'' = Some (Fin 1000000000000000000000)"
    using st' by (simp add: balanceNumber_def cid parse_examples)
  have r0: "representable 0" by (intro representable_small) simp
  have eq: "Transfer alice (clientID alice) ''0'' huge =
     (Inr True,
      putTxData (historyKeyOf (clientID alice))
        (historyAt huge (historyKeyOf (clientID alice))
           @ [\<lparr>tx_from = ''admin'', tx_to = clientID alice, tx_value = clientID alice,
               tx_time = txTimestamp alice\<rparr>])
        (putState (balanceKeyOf (clientID alice)) (toString (Fin (1000000000000000000000 + 0)))
          (putState (balanceKeyOf (clientID alice))
             (toString (Fin (1000000000000000000000 - 0))) huge)))"
    using init' key key parse_examples(1) _ r0 st' parse_examples(10) _ _ _ st' parse_examples(10)
    by (rule Transfer_succeeds) (simp_all add: representable_1e21)
  have two: "fst (Transfer alice ''alice'' ''0'' huge) = Inr True
     \<and> state (snd (Transfer alice ''alice'' ''0'' huge)) (balanceKeyOf ''alice'') = Some ''1e+21''
     \<and> balanceNumber (snd (Transfer alice ''alice'' ''0'' huge)) ''alice'' = Some (Fin 1)"
    using eq
    by (simp add: cid putTxData_def putState_def balanceNumber_def natToString_examples
        parse_examples)
  show ?thesis
    using two by (simp add: init cid b parse_examples one init' b')
qed

text \<open>
  Claim C5. On the ledger without Metadata \<^verbatim>\<open>TransferFrom\<close> does not fail with
  \<open>NotInitialized\<close>: its own checks come first and one of them always throws there
  (\<open>SelfTransferRejected\<close>, \<open>InvalidAmount\<close>, the host's refusal of the key, or
  \<open>SourceAccountNotFound\<close>). Every other operation but \<^verbatim>\<open>Initialize\<close> does
  fail with \<open>NotInitialized\<close> (\<open>gated_operations\<close>).
\<close>

theorem C5_TransferFrom_before_Initialize:
  "state emptyWorld nameKey = None
   \<and> invoke alice (CallTransferFrom ''alice'' ''alice'' ''1'') emptyWorld
        = (Inl SelfTransferRejected, emptyWorld)
   \<and> invoke alice (CallTransferFrom ''alice'' ''bob'' ''-1'') emptyWorld
        = (Inl InvalidAmount, emptyWorld)
   \<and> invoke alice (CallTransferFrom ''alice'' ''bob'' ''1'') emptyWorld
        = (Inl SourceAccountNotFound, emptyWorld)"
  by (simp add: returning_def TransferFrom_emptyWorld parse_examples contexts)
     (simp add: emptyWorld_def)

text \<open>
  Claim C6. In the initialized ledger with no total supply written, the accessor
  \<^verbatim>\<open>TotalSupply\<close> returns \<^verbatim>\<open>NaN\<close> without an error when the host answers a
  missing key with an empty buffer; it throws (a \<open>TypeError\<close>) only when the host
  answers \<^verbatim>\<open>undefined\<close>.
\<close>

theorem C6_TotalSupply_before_Mint:
  "CheckInitialized admin initialized = Inr ()
   \<and> state initialized totalSupplyKey = None
   \<and> onMissing admin = EmptyBuffer
   \<and> TotalSupply admin initialized = (Inr NaN, initialized)
   \<and> TotalSupply (admin\<lparr>onMissing := Undefined\<rparr>) initialized = (Inl TypeError, initialized)"
  by (simp add: initialized_eq admin_def TotalSupply_def CheckInitialized_def orThrow_def Let_def
      getState_def absent_def parseBuffer_def nameKey_def totalSupplyKey_def parseInt_Nil)




text \<open>
  Claim C8. Where the checks are reached (initialized ledger for \<^verbatim>\<open>Transfer\<close>,
  \<open>from\<close> different from \<open>to\<close> for \<^verbatim>\<open>TransferFrom\<close>, amount not negative, a
  source address the host builds a key for and a balance record under it), both
  operations fail with \<open>InsufficientFunds\<close> when the source balance is less than the
  amount, and otherwise, for a destination address the host builds a key for, with
  \<open>DestinationNotSignedUp\<close> when the destination has no balance record; in both
  cases nothing has been written, and no destination record is created.
\<close>

theorem C8_insufficient_or_unknown_destination:
  "(CheckInitialized c w = Inr () \<and> \<not> num_lt (parseInt val) (Fin 0)
      \<and> keyable c (clientID c)
      \<and> state w (balanceKeyOf (clientID c)) = Some s \<and> s \<noteq> []
      \<and> num_lt (parseInt s) (parseInt val)
      \<longrightarrow> Transfer c to val w = (Inl InsufficientFunds, w))
   \<and> (from \<noteq> to \<and> \<not> num_lt (parseInt val) (Fin 0)
      \<and> keyable c from
      \<and> state w (balanceKeyOf from) = Some s \<and> s \<noteq> []
      \<and> num_lt (parseInt s) (parseInt val)
      \<longrightarrow> TransferFrom c from to val w = (Inl InsufficientFunds, w))
   \<and> (CheckInitialized c w = Inr () \<and> \<not> num_lt (parseInt val) (Fin 0)
      \<and> keyable c (clientID c)
      \<and> state w (balanceKeyOf (clientID c)) = Some s \<and> s \<noteq> []
      \<and> \<not> num_lt (parseInt s) (parseInt val)
      \<and> keyable c to \<and> state w (balanceKeyOf to) = None
      \<longrightarrow> Transfer c to val w = (Inl DestinationNotSignedUp, w)
          \<and> state (snd (Transfer c to val w)) (balanceKeyOf to) = None)
   \<and> (from \<noteq> to \<and> \<not> num_lt (parseInt val) (Fin 0)
      \<and> keyable c from
      \<and> state w (balanceKeyOf from) = Some s \<and> s \<noteq> []
      \<and> \<not> num_lt (parseInt s) (parseInt val)
      \<and> keyable c to \<and> state w (balanceKeyOf to) = None
      \<longrightarrow> TransferFrom c from to val w = (Inl DestinationNotSignedUp, w)
          \<and> state (snd (TransferFrom c from to val w)) (balanceKeyOf to) = None)"
  by (intro conjI impI)
     (simp_all add: Transfer_insufficient TransferFrom_insufficient
        Transfer_no_destination TransferFrom_no_destination)

theorem C8_witness:
  "Transfer alice ''bob'' ''1'' signedUp = (Inl InsufficientFunds, signedUp)
   \<and> TransferFrom alice ''alice'' ''bob'' ''1'' signedUp = (Inl InsufficientFunds, signedUp)
   \<and> Transfer alice ''carol'' ''0'' signedUp = (Inl DestinationNotSignedUp, signedUp)
   \<and> TransferFrom alice ''alice'' ''carol'' ''0'' signedUp = (Inl DestinationNotSignedUp, signedUp)
   \<and> state signedUp (balanceKeyOf ''carol'') = None"
proof -
  note i = C8_insufficient_or_unknown_destination
      [of alice signedUp "''1''" "''0''" "''bob''" "''alice''"]
  note d = C8_insufficient_or_unknown_destination
      [of alice signedUp "''0''" "''0''" "''carol''" "''alice''"]
  show ?thesis
    using i d by (simp add: signedUp_facts parse_examples contexts)
qed

text \<open>
  Claim C9. \<^verbatim>\<open>TransferFrom(from, to, value)\<close> with \<open>from\<close> equal to \<open>to\<close> fails
  with \<open>SelfTransferRejected\<close> in every ledger (initialized or not), for every value
  and whatever the balances are; nothing is written.
\<close>

theorem C9_self_transfer_rejected:
  "TransferFrom c a a val w = (Inl SelfTransferRejected, w)"
  by (simp add: TransferFrom_def)

text \<open>
  Claim C10, as amended. For exactly representable integers \<open>0 \<le> a < b\<close> whose
  difference is exactly representable too (it always is when \<open>b \<le> 2\<^sup>5\<^sup>3\<close>),
  \<^verbatim>\<open>sub(a, b)\<close> resolves to the negative value \<open>a - b\<close>: a negative result is not
  rejected.
\<close>

theorem C10_sub_negative_result:
  assumes "representable a" and "representable b"
    and "0 \<le> a" and "a < b"
    and "representable (a - b) \<or> b \<le> 2 ^ 53"
  shows "await (sub (Fin a) (Fin b)) = Inr (Fin (a - b)) \<and> a - b < 0"
proof -
  have "representable (a - b)"
  proof (cases "b \<le> 2 ^ 53")
    case True
    with assms(3,4) show ?thesis by (intro representable_small) simp
  next
    case False
    with assms(5) show ?thesis by simp
  qed
  with assms show ?thesis by (simp add: sub_exact)
qed

theorem C10_witness:
  "representable 3 \<and> representable 5 \<and> await (sub (Fin 3) (Fin 5)) = Inr (Fin (- 2))"
proof -
  have r3: "representable 3" by (intro representable_small) simp
  have r5: "representable 5" by (intro representable_small) simp
  have h: "representable (3 - 5) \<or> (5::int) \<le> 2 ^ 53" by simp
  from C10_sub_negative_result [OF r3 r5 _ _ h] r3 r5 show ?thesis by simp
qed

text \<open>
  Claim C10 as stated fails for representable operands whose difference is not a
  double: \<open>1 - 9007199254740994\<close> rounds to \<open>- 2\<^sup>5\<^sup>3\<close>, the round trip gives 2
  instead of 1, and \<^verbatim>\<open>sub\<close> rejects.
\<close>

theorem C10_counterexample:
  "representable 1 \<and> representable 9007199254740994
   \<and> (0::int) \<le> 1 \<and> (1::int) < 9007199254740994
   \<and> await (sub (Fin 1) (Fin 9007199254740994)) = Inl ArithmeticUnderflow"
  by (simp add: representable_def sub_def num_sub_def strict_ne_def toNumber_def roundNat_def
      bit_length.simps)

end
